theory Spec2Isabelle
  imports Complex_Main "HOL-Library.Log_Nat"
begin

section \<open>Strings and JSON values\<close>

text \<open>
  A JavaScript string is a sequence of UTF-16 code units; a code unit is modelled as a
  natural number. Literals of the source are written \<open>js ''...''\<close>.
\<close>

type_synonym jstring = "nat list"

abbreviation (input) js :: "string \<Rightarrow> jstring" where
  "js s \<equiv> map of_char s"

text \<open>
  The code units that \<open>String.prototype.trim\<close> strips and that the regular expression
  class \<open>\s\<close> matches: ECMAScript WhiteSpace (TAB, VT, FF, SP, NBSP, ZWNBSP and the
  Unicode space separators) and LineTerminator (LF, CR, LS, PS).
\<close>

definition isWhiteSpace :: "nat \<Rightarrow> bool" where
  "isWhiteSpace c \<longleftrightarrow>
     c \<in> {9, 10, 11, 12, 13, 32, 160, 5760, 8232, 8233, 8239, 8287, 12288, 65279}
     \<or> (8192 \<le> c \<and> c \<le> 8202)"

definition trim :: "jstring \<Rightarrow> jstring" where
  "trim s = rev (dropWhile isWhiteSpace (rev (dropWhile isWhiteSpace s)))"

text \<open>\<open>Number.prototype.toString\<close> on a non-negative integer below \<open>2^53\<close>.\<close>

fun decimal :: "nat \<Rightarrow> jstring" where
  "decimal n = (if n < 10 then [48 + n] else decimal (n div 10) @ [48 + n mod 10])"

declare decimal.simps [simp del]

text \<open>
  A parsed JSON value. The entries of an object are listed in the order in which
  \<open>Object.entries\<close> enumerates them. A number is the rational it denotes.
\<close>

datatype json =
    JNull
  | JBool bool
  | JNum rat
  | JStr jstring
  | JArr "json list"
  | JObj "(jstring \<times> json) list"

text \<open>
  Reading a property whose name is no built-in property of strings, arrays, numbers or
  booleans (\<open>error\<close>, \<open>logs\<close>, \<open>text_analysis\<close>, \<open>numeric_analysis\<close>): \<open>None\<close> is
  \<open>undefined\<close>. On \<open>null\<close> this is the optional read \<open>v?.k\<close>; the plain read
  \<open>v.k\<close> of \<open>null\<close> throws, and its callers test for \<open>JNull\<close> first.
\<close>

fun get_prop :: "json \<Rightarrow> jstring \<Rightarrow> json option" where
  "get_prop (JObj kvs) k = map_of kvs k"
| "get_prop _ k = None"

text \<open>JavaScript truthiness of a value that may be \<open>undefined\<close>.\<close>

fun truthy :: "json option \<Rightarrow> bool" where
  "truthy None = False"
| "truthy (Some JNull) = False"
| "truthy (Some (JBool b)) = b"
| "truthy (Some (JNum q)) = (q \<noteq> 0)"
| "truthy (Some (JStr s)) = (s \<noteq> [])"
| "truthy (Some (JArr _)) = True"
| "truthy (Some (JObj _)) = True"

section \<open>The log sanitizer\<close>

text \<open>
  \<open>String.prototype.replace\<close> with a global regular expression and a constant
  replacement. The matcher \<open>m\<close> gives the length of the match that starts at the head of
  its argument, if there is one. The scan tries every position from left to right; after
  a match it resumes behind the match, and behind the next code unit when the match was
  empty.
\<close>

function replace_global :: "(jstring \<Rightarrow> nat option) \<Rightarrow> jstring \<Rightarrow> jstring \<Rightarrow> jstring" where
  "replace_global m r [] = (case m [] of None \<Rightarrow> [] | Some _ \<Rightarrow> r)"
| "replace_global m r (c # cs) =
     (case m (c # cs) of
        None \<Rightarrow> c # replace_global m r cs
      | Some n \<Rightarrow>
          if n = 0 then r @ c # replace_global m r cs
          else r @ replace_global m r (drop n (c # cs)))"
  by pat_completeness auto
termination
  by (relation "measure (\<lambda>(m, r, s). length s)") auto

definition fence :: jstring where
  "fence = [96, 96, 96]"

text \<open>The number of code units before the first occurrence of the fence.\<close>

fun find_fence :: "jstring \<Rightarrow> nat option" where
  "find_fence [] = None"
| "find_fence (c # cs) =
     (if take 3 (c # cs) = fence then Some 0 else map_option Suc (find_fence cs))"

text \<open>
  The regular expression \<open>```[\s\S]*?```\<close>: the fence, then as few code units of any
  kind as possible, then the fence again.
\<close>

definition match_fence :: "jstring \<Rightarrow> nat option" where
  "match_fence s =
     (if take 3 s = fence
      then (case find_fence (drop 3 s) of None \<Rightarrow> None | Some k \<Rightarrow> Some (3 + k + 3))
      else None)"

text \<open>The regular expression \<open>\s+\<close>: the longest non-empty run of whitespace.\<close>

definition match_ws_run :: "jstring \<Rightarrow> nat option" where
  "match_ws_run s =
     (let n = length (takeWhile isWhiteSpace s) in if n = 0 then None else Some n)"

text \<open>\<open>String.prototype.indexOf\<close> for a single code unit: \<open>-1\<close> when it does not occur.\<close>

fun indexOf :: "jstring \<Rightarrow> nat \<Rightarrow> int" where
  "indexOf [] c = - 1"
| "indexOf (x # xs) c =
     (if x = c then 0 else (let i = indexOf xs c in if i > - 1 then i + 1 else - 1))"

text \<open>\<open>s.slice(0, i)\<close> for an index \<open>i\<close> that is not negative.\<close>

definition slice0 :: "jstring \<Rightarrow> int \<Rightarrow> jstring" where
  "slice0 s i = take (nat i) s"

definition sanitizeLogEntry :: "json \<Rightarrow> jstring" where
  "sanitizeLogEntry entry =
     (case entry of
        JStr s \<Rightarrow>
          (let withoutCodeBlocks = replace_global match_fence [] s;
               colonIndex = indexOf withoutCodeBlocks 58;
               trimmed = (if colonIndex > - 1 then slice0 withoutCodeBlocks colonIndex
                          else withoutCodeBlocks)
           in trim (replace_global match_ws_run [32] trimmed))
      | _ \<Rightarrow> [])"

text \<open>
  The contract of the sanitizer in the words of the specification, step by step. A
  fence is three backticks (code unit 96) in a row. \<open>split_at_fence\<close> gives the text
  before the first fence and the text behind it. A fenced segment runs from the first
  fence to the next fence behind it; it is deleted and the search goes on behind it. A
  fence with no later fence stays.
\<close>

fun split_at_fence :: "jstring \<Rightarrow> (jstring \<times> jstring) option" where
  "split_at_fence (x # y # z # r) =
     (if x = 96 \<and> y = 96 \<and> z = 96 then Some ([], r)
      else map_option (\<lambda>(before, behind). (x # before, behind))
             (split_at_fence (y # z # r)))"
| "split_at_fence _ = None"

function remove_fenced :: "jstring \<Rightarrow> jstring" where
  "remove_fenced s =
     (case split_at_fence s of
        None \<Rightarrow> s
      | Some (before, rest) \<Rightarrow>
          (case split_at_fence rest of
             None \<Rightarrow> s
           | Some (block, behind) \<Rightarrow> before @ remove_fenced behind))"
  by pat_completeness auto
termination
proof (relation "measure length")
  have len: "split_at_fence s = Some (p, q) \<Longrightarrow> length q < length s" for s p q
  proof (induction s arbitrary: p rule: split_at_fence.induct)
    case (1 x y z r)
    show ?case
    proof (cases "x = 96 \<and> y = 96 \<and> z = 96")
      case True
      with "1.prems" show ?thesis by simp
    next
      case False
      with "1.prems" obtain p' where "split_at_fence (y # z # r) = Some (p', q)"
        by (auto split: if_splits)
      with False "1.IH" have "length q < length (y # z # r)" by blast
      then show ?thesis by simp
    qed
  qed simp_all
  show "wf (measure length)" by simp
  fix s before rest block behind :: jstring and x y
  assume "split_at_fence s = Some x" "(before, rest) = x"
    "split_at_fence rest = Some y" "(block, behind) = y"
  then have "length rest < length s" "length behind < length rest"
    by (auto dest: len)
  then show "(behind, s) \<in> measure length" by simp
qed

declare remove_fenced.simps [simp del]

text \<open>Everything from the first colon (code unit 58) onward is dropped.\<close>

definition truncate_at_colon :: "jstring \<Rightarrow> jstring" where
  "truncate_at_colon s = takeWhile (\<lambda>c. c \<noteq> 58) s"

text \<open>
  Of a run of whitespace only the last code unit is kept, and it is kept as a space.
\<close>

fun collapse_ws :: "jstring \<Rightarrow> jstring" where
  "collapse_ws [] = []"
| "collapse_ws [c] = [if isWhiteSpace c then 32 else c]"
| "collapse_ws (c # d # cs) =
     (if isWhiteSpace c \<and> isWhiteSpace d then collapse_ws (d # cs)
      else (if isWhiteSpace c then 32 else c) # collapse_ws (d # cs))"

text \<open>
  The shape of a string in which every run of whitespace is a single space.
\<close>

fun single_spaced :: "jstring \<Rightarrow> bool" where
  "single_spaced [] = True"
| "single_spaced [c] = (isWhiteSpace c \<longrightarrow> c = 32)"
| "single_spaced (c # d # cs) =
     ((isWhiteSpace c \<longrightarrow> c = 32 \<and> \<not> isWhiteSpace d) \<and> single_spaced (d # cs))"

section \<open>The byte-size formatter\<close>

definition units :: "jstring list" where
  "units = [js ''B'', js ''KB'', js ''MB'', js ''GB'', js ''TB'']"

text \<open>
  The arithmetic of \<open>formatBytes\<close> is carried out exactly, where the source computes
  in doubles. \<open>log1024_floor\<close> is the floor of the exact quotient of logarithms that
  \<open>Math.floor(Math.log(bytes) / Math.log(1024))\<close> approximates for a positive byte
  count, and \<open>toFixed1\<close> is \<open>toFixed(1)\<close> on a non-negative value: the nearest
  multiple of one tenth, the larger one of two that are equally near. The two agree with
  the doubles where no rounding is involved, as at 1536 (the quotient is about 1.06 and
  1536 / 1024 is exactly 1.5). They differ where the quotient of doubles rounds up to
  an integer: just below a power of 1024, for instance at \<open>2^50 - 1\<close>, the source
  takes the larger index and the exact floor the smaller one. Such byte counts are
  outside what this model is used for.
\<close>

definition log1024_floor :: "nat \<Rightarrow> nat" where
  "log1024_floor bytes = floorlog 1024 bytes - 1"

definition toFixed1 :: "rat \<Rightarrow> jstring" where
  "toFixed1 x =
     (let n = nat \<lfloor>10 * x + 1 / 2\<rfloor> in decimal (n div 10) @ js ''.'' @ decimal (n mod 10))"

text \<open>
  The argument is a byte count; \<open>None\<close> is \<open>undefined\<close>, for which the default
  parameter value 0 is taken. An index beyond the table reads \<open>undefined\<close>.
\<close>

definition formatBytes :: "nat option \<Rightarrow> jstring" where
  "formatBytes arg =
     (let bytes = (case arg of None \<Rightarrow> 0 | Some b \<Rightarrow> b) in
      if bytes = 0 then js ''0 B''
      else
        (let index = log1024_floor bytes;
             val = of_nat bytes / 1024 ^ index
         in toFixed1 val @ js '' ''
            @ (if index < length units then units ! index else js ''undefined'')))"

section \<open>Derived career actions\<close>

text \<open>
  Numeric insights as the data model gives them: \<open>skills\<close> maps a skill name to its
  numeric score, listed in the order of \<open>Object.entries\<close>; \<open>None\<close> is a missing (or
  otherwise falsy) field. \<open>Number.prototype.toString\<close> is a parameter of the model.
\<close>

record numeric_insights =
  skills :: "(jstring \<times> rat) list option"
  overall_score :: "rat option"

text \<open>
  \<open>Number.prototype.toString\<close> where it is plain digits: on an integer of magnitude
  below \<open>2^53\<close>.
\<close>

definition integer_digits :: "rat \<Rightarrow> jstring" where
  "integer_digits q = (if q < 0 then js ''-'' else []) @ decimal (nat \<bar>\<lfloor>q\<rfloor>\<bar>)"

definition suggestion :: "(rat \<Rightarrow> jstring) \<Rightarrow> jstring \<Rightarrow> rat \<Rightarrow> jstring" where
  "suggestion numberToString skill score =
     skill @ js '' skills are at '' @ numberToString score
     @ js ''. Focus on targeted projects or courses to lift this metric.''"

definition derivedCareerActions ::
  "(rat \<Rightarrow> jstring) \<Rightarrow> numeric_insights option \<Rightarrow> jstring list" where
  "derivedCareerActions numberToString numericInsights =
     (case numericInsights of
        None \<Rightarrow> []
      | Some ni \<Rightarrow>
          (case skills ni of
             None \<Rightarrow> []
           | Some entries \<Rightarrow>
               take 4
                 (fold (\<lambda>(skill, score) actions.
                          if score < 50
                          then actions @ [suggestion numberToString skill score]
                          else actions)
                    entries [])))"

section \<open>Network, responses and the engine\<close>

text \<open>
  An exception is either the \<open>AbortError\<close> that an aborted fetch rejects with, or any
  other error with its message. The messages of the errors that the engine itself raises
  are chosen by the engine; \<open>faultMessage\<close> supplies them.
\<close>

datatype js_error = AbortError | Error jstring

datatype fault =
    NetworkFailure
  | MalformedJson
  | BodyAlreadyUsed
  | NullProperty jstring
  | NotPrimitive

text \<open>
  A response carries its status and its body, which is JSON text or is not; the body can
  be read once, and reading it settles (a body that never arrives is outside the model).
  \<open>ok\<close> is the status range 200 to 299.
\<close>

datatype body_text = Parsed json | Unparseable

record response =
  status :: nat
  body :: body_text
  bodyUsed :: bool

definition ok :: "response \<Rightarrow> bool" where
  "ok r \<longleftrightarrow> 200 \<le> status r \<and> status r \<le> 299"

text \<open>
  The options of a request; \<open>json_body\<close> is the value whose \<open>JSON.stringify\<close> text is
  sent.
\<close>

record fetch_options =
  http_method :: "jstring option"
  headers :: "(jstring \<times> jstring) list"
  json_body :: "json option"

text \<open>
  What the network does with a request: it settles after some milliseconds, with a
  response or with a failure, or it never settles.
\<close>

datatype net_result = Responded nat body_text | Failed

datatype net_behaviour = Completes nat net_result | Never

datatype net_event = Fetch jstring fetch_options | Abort jstring

text \<open>
  Everything outside the component: the network, the wall clock (\<open>clock n\<close> is the
  time string read by the \<open>appendLog\<close> call that finds \<open>n\<close> entries in the list),
  \<open>Number.prototype.toString\<close> and the engine's error messages.
\<close>

record env =
  network :: "jstring \<Rightarrow> fetch_options \<Rightarrow> net_behaviour"
  clock :: "nat \<Rightarrow> jstring"
  numberToString :: "rat \<Rightarrow> jstring"
  faultMessage :: "fault \<Rightarrow> jstring"

definition PROFILE_TIMEOUT :: nat where
  "PROFILE_TIMEOUT = 120000"

definition AI_TIMEOUT :: nat where
  "AI_TIMEOUT = 150000"

text \<open>
  The timer of \<open>fetchWithTimeout\<close> fires \<open>timeout\<close> milliseconds after the request is
  issued. When it fires before the network settles, the request is aborted and the fetch
  rejects with \<open>AbortError\<close>; otherwise (also when both fall into the same millisecond)
  the timer is cleared and the outcome of the network is the outcome of the call. The
  second component lists what was done on the network.
\<close>

definition fetchWithTimeout ::
  "env \<Rightarrow> jstring \<Rightarrow> fetch_options \<Rightarrow> nat \<Rightarrow> (js_error + response) \<times> net_event list" where
  "fetchWithTimeout env url options timeout =
     (case network env url options of
        Never \<Rightarrow> (Inl AbortError, [Fetch url options, Abort url])
      | Completes t r \<Rightarrow>
          if timeout < t then (Inl AbortError, [Fetch url options, Abort url])
          else
            (case r of
               Failed \<Rightarrow> (Inl (Error (faultMessage env NetworkFailure)), [Fetch url options])
             | Responded code b \<Rightarrow>
                 (Inr \<lparr>status = code, body = b, bodyUsed = False\<rparr>, [Fetch url options])))"

text \<open>\<open>response.json()\<close> and \<open>response.clone()\<close>.\<close>

definition response_json :: "env \<Rightarrow> response \<Rightarrow> (js_error + json) \<times> response" where
  "response_json env r =
     (if bodyUsed r then (Inl (Error (faultMessage env BodyAlreadyUsed)), r)
      else
        (case body r of
           Parsed v \<Rightarrow> (Inr v, r\<lparr>bodyUsed := True\<rparr>)
         | Unparseable \<Rightarrow> (Inl (Error (faultMessage env MalformedJson)), r\<lparr>bodyUsed := True\<rparr>)))"

definition clone :: "env \<Rightarrow> response \<Rightarrow> js_error + response" where
  "clone env r = (if bodyUsed r then Inl (Error (faultMessage env BodyAlreadyUsed)) else Inr r)"

section \<open>The response error extractor\<close>

definition getResponseError :: "env \<Rightarrow> response \<Rightarrow> jstring \<Rightarrow> jstring" where
  "getResponseError env response fallback =
     (let fromBody =
            (case clone env response of
               Inl _ \<Rightarrow> None
             | Inr copy \<Rightarrow>
                 (case fst (response_json env copy) of
                    Inl _ \<Rightarrow> None
                  | Inr data \<Rightarrow>
                      (case get_prop data (js ''error'') of
                         Some (JStr e) \<Rightarrow> if trim e \<noteq> [] then Some e else None
                       | _ \<Rightarrow> None)))
      in case fromBody of
           Some e \<Rightarrow> e
         | None \<Rightarrow> if status response = 404 then js ''GitHub user not found.'' else fallback)"

text \<open>
  The error field of a response body in the words of the specification: present when
  the body is a JSON object whose \<open>error\<close> field is a string that is not blank.
\<close>

definition body_error :: "body_text \<Rightarrow> jstring option" where
  "body_error b =
     (case b of
        Parsed (JObj kvs) \<Rightarrow>
          (case map_of kvs (js ''error'') of
             Some (JStr e) \<Rightarrow> if list_all isWhiteSpace e then None else Some e
           | _ \<Rightarrow> None)
      | _ \<Rightarrow> None)"

section \<open>The screen state and the orchestrator\<close>

record log_entry =
  entry_id :: jstring
  time :: jstring
  message :: jstring

text \<open>The state cells of the component; \<open>JNull\<close> is \<open>null\<close>.\<close>

record ui_state =
  username :: jstring
  loading :: bool
  error :: jstring
  logs :: "log_entry list"
  githubData :: json
  aiInsights :: json
  numericInsights :: json

definition initial_state :: ui_state where
  "initial_state =
     \<lparr>username = [], loading = False, error = [], logs = [],
      githubData = JNull, aiInsights = JNull, numericInsights = JNull\<rparr>"

definition appendLog :: "env \<Rightarrow> jstring \<Rightarrow> ui_state \<Rightarrow> ui_state" where
  "appendLog env msg st =
     (if msg = [] then st
      else
        (let timestamp = clock env (length (logs st)) in
         st\<lparr>logs := logs st
                @ [\<lparr>entry_id = timestamp @ js ''-'' @ decimal (length (logs st)),
                    time = timestamp, message = msg\<rparr>]\<rparr>))"

text \<open>
  The conversion to a string that the \<open>Error\<close> constructor applies to its argument.
  An array joins its elements with commas, \<open>null\<close> elements as empty strings. An object
  with a \<open>toString\<close> field of its own has no primitive value, and the conversion throws
  (\<open>None\<close>).
\<close>

fun join :: "jstring \<Rightarrow> jstring list \<Rightarrow> jstring" where
  "join sep [] = []"
| "join sep [x] = x"
| "join sep (x # y # ys) = x @ sep @ join sep (y # ys)"

fun ToString :: "(rat \<Rightarrow> jstring) \<Rightarrow> json \<Rightarrow> jstring option" where
  "ToString f JNull = Some (js ''null'')"
| "ToString f (JBool b) = Some (if b then js ''true'' else js ''false'')"
| "ToString f (JNum q) = Some (f q)"
| "ToString f (JStr s) = Some s"
| "ToString f (JArr xs) =
     map_option (join (js '',''))
       (those (map (\<lambda>x. if x = JNull then Some [] else ToString f x) xs))"
| "ToString f (JObj kvs) =
     (if map_of kvs (js ''toString'') = None then Some (js ''[object Object]'') else None)"

text \<open>
  The error thrown for a profile response that is not ok. Its message is the body's
  \<open>error\<close> value when that is truthy, the extractor's message when reading it throws,
  and one of the two canned messages over both for the statuses 404 and 403.
\<close>

definition profileError :: "env \<Rightarrow> response \<Rightarrow> js_error" where
  "profileError env profileRes =
     (let fallback = js ''Failed to fetch GitHub profile data'';
          (parsed, res) = response_json env profileRes;
          errorMessage =
            (case parsed of
               Inl _ \<Rightarrow> JStr (getResponseError env res fallback)
             | Inr errorData \<Rightarrow>
                 if errorData = JNull then JStr (getResponseError env res fallback)
                 else
                   (case get_prop errorData (js ''error'') of
                      None \<Rightarrow> JStr fallback
                    | Some v \<Rightarrow> if truthy (Some v) then v else JStr fallback));
          errorMessage =
            (if status profileRes = 404
             then JStr (js ''GitHub user not found. Please check the username.'')
             else if status profileRes = 403
             then JStr (js ''GitHub API rate limit exceeded. Please try again later.'')
             else errorMessage)
      in case ToString (numberToString env) errorMessage of
           Some m \<Rightarrow> Error m
         | None \<Rightarrow> Error (faultMessage env NotPrimitive))"

text \<open>The \<open>catch\<close> block followed by the \<open>finally\<close> block.\<close>

definition handleFailure :: "env \<Rightarrow> js_error \<Rightarrow> ui_state \<Rightarrow> ui_state" where
  "handleFailure env err st =
     (let st = appendLog env (js ''Analysis failed'') st;
          st = (case err of
                  AbortError \<Rightarrow> st\<lparr>error := js ''Request timed out. Please try again.''\<rparr>
                | Error m \<Rightarrow>
                    st\<lparr>error := (if m \<noteq> [] then m else js ''Something went wrong. Try again.'')\<rparr>)
      in st\<lparr>loading := False\<rparr>)"

text \<open>
  A setter call does not change a state cell: it queues an update, and React applies the
  queued updates, in order, once the handler yields at an \<open>await\<close>. The functions of
  this section compute the cells with the updates made so far applied. The cells as the
  component holds them at a network call, and the updates queued since the handler
  started or resumed, are recorded with the call as a \<open>moment\<close>; \<open>flushed\<close> gives the
  cells once the queued updates are applied.
\<close>

datatype update =
    SetError jstring
  | SetLoading bool
  | SetGithubData json
  | SetAiInsights json
  | SetNumericInsights json
  | SetLogs "log_entry list"
  | AppendLog jstring

fun apply_update :: "env \<Rightarrow> update \<Rightarrow> ui_state \<Rightarrow> ui_state" where
  "apply_update env (SetError m) st = st\<lparr>error := m\<rparr>"
| "apply_update env (SetLoading b) st = st\<lparr>loading := b\<rparr>"
| "apply_update env (SetGithubData v) st = st\<lparr>githubData := v\<rparr>"
| "apply_update env (SetAiInsights v) st = st\<lparr>aiInsights := v\<rparr>"
| "apply_update env (SetNumericInsights v) st = st\<lparr>numericInsights := v\<rparr>"
| "apply_update env (SetLogs l) st = st\<lparr>logs := l\<rparr>"
| "apply_update env (AppendLog m) st = appendLog env m st"

record moment =
  cells :: ui_state
  queued :: "update list"

definition flushed :: "env \<Rightarrow> moment \<Rightarrow> ui_state" where
  "flushed env m = fold (apply_update env) (queued m) (cells m)"

text \<open>
  The setter calls between the validation and the profile request, and the cells they
  produce.
\<close>

definition startUpdates :: "update list" where
  "startUpdates =
     [SetError [], SetLoading True, SetGithubData JNull, SetAiInsights JNull,
      SetNumericInsights JNull, SetLogs [],
      AppendLog (js ''Kickstarting GitHub profile analysis''),
      AppendLog (js ''Requesting repository intelligence from backend'')]"

definition startRun :: "env \<Rightarrow> ui_state \<Rightarrow> ui_state" where
  "startRun env st = fold (apply_update env) startUpdates st"

definition or_null :: "json option \<Rightarrow> json" where
  "or_null v = (case v of None \<Rightarrow> JNull | Some x \<Rightarrow> if truthy (Some x) then x else JNull)"

text \<open>The run from a parsed, non-null AI result to its end.\<close>

definition finishRun :: "env \<Rightarrow> json \<Rightarrow> ui_state \<Rightarrow> ui_state" where
  "finishRun env aiResult st =
     (let st = st\<lparr>aiInsights := or_null (get_prop aiResult (js ''text_analysis''))\<rparr>;
          st = st\<lparr>numericInsights := or_null (get_prop aiResult (js ''numeric_analysis''))\<rparr>;
          st = (case get_prop aiResult (js ''logs'') of
                  Some (JArr entries) \<Rightarrow>
                    if length entries > 0
                    then fold (\<lambda>entry. appendLog env entry)
                           (filter (\<lambda>entry. entry \<noteq> []) (map sanitizeLogEntry entries)) st
                    else st
                | _ \<Rightarrow> st);
          st = appendLog env (js ''AI pipeline completed successfully'') st
      in st\<lparr>loading := False\<rparr>)"

definition profile_url :: "jstring \<Rightarrow> jstring" where
  "profile_url user = js ''http://localhost:5000/analyze?user='' @ user"

definition profile_options :: fetch_options where
  "profile_options = \<lparr>http_method = None, headers = [], json_body = None\<rparr>"

definition ai_url :: jstring where
  "ai_url = js ''http://localhost:5000/ai/full-analysis''"

definition ai_options :: "json \<Rightarrow> fetch_options" where
  "ai_options profileData =
     \<lparr>http_method = Some (js ''POST''),
      headers = [(js ''Content-Type'', js ''application/json'')],
      json_body = Some (JObj [(js ''profileData'', profileData)])\<rparr>"

text \<open>
  The run from the parsed profile payload on: three setter calls and the second network
  call.
\<close>

definition aiUpdates :: "json \<Rightarrow> update list" where
  "aiUpdates profileData =
     [SetGithubData profileData,
      AppendLog (js ''Repository summary received''),
      AppendLog (js ''Sending profile summary to AI pipeline'')]"

definition aiStage ::
  "env \<Rightarrow> json \<Rightarrow> ui_state \<Rightarrow> ui_state \<times> (moment \<times> net_event) list" where
  "aiStage env profileData st0 =
     (let st = fold (apply_update env) (aiUpdates profileData) st0;
          (aiOutcome, events) = fetchWithTimeout env ai_url (ai_options profileData) AI_TIMEOUT
      in
        ((case aiOutcome of
            Inl err \<Rightarrow> handleFailure env err st
          | Inr aiRes \<Rightarrow>
              if \<not> ok aiRes
              then handleFailure env
                     (Error (getResponseError env aiRes (js ''AI analysis failed''))) st
              else
                (case fst (response_json env aiRes) of
                   Inl err \<Rightarrow> handleFailure env err st
                 | Inr aiResult \<Rightarrow>
                     if aiResult = JNull
                     then handleFailure env
                            (Error (faultMessage env (NullProperty (js ''text_analysis'')))) st
                     else finishRun env aiResult st)),
         map (Pair \<lparr>cells = st0, queued = aiUpdates profileData\<rparr>) events))"

text \<open>
  One click on the trigger: the cells after the run, and what was done on the network,
  in order, each event with the moment of the call behind it.
\<close>

definition handleAnalyze ::
  "env \<Rightarrow> ui_state \<Rightarrow> ui_state \<times> (moment \<times> net_event) list" where
  "handleAnalyze env st0 =
     (if trim (username st0) = [] then (st0\<lparr>error := js ''Username cannot be empty''\<rparr>, [])
      else
        (let st = startRun env st0;
             (profileOutcome, events) =
               fetchWithTimeout env (profile_url (username st0)) profile_options PROFILE_TIMEOUT;
             events = map (Pair \<lparr>cells = st0, queued = startUpdates\<rparr>) events
         in
           (case profileOutcome of
              Inl err \<Rightarrow> (handleFailure env err st, events)
            | Inr profileRes \<Rightarrow>
                if \<not> ok profileRes
                then (handleFailure env (profileError env profileRes) st, events)
                else
                  (case fst (response_json env profileRes) of
                     Inl err \<Rightarrow> (handleFailure env err st, events)
                   | Inr profileData \<Rightarrow>
                       (let (st, events2) = aiStage env profileData st
                        in (st, events @ events2))))))"

text \<open>The timeout elapses before the network settles.\<close>

definition times_out :: "net_behaviour \<Rightarrow> nat \<Rightarrow> bool" where
  "times_out b timeout = (case b of Never \<Rightarrow> True | Completes t _ \<Rightarrow> timeout < t)"

section \<open>Sample inputs\<close>

text \<open>
  An environment whose network behaves in one way for the AI address and in another for
  every other address, and a state in which a username has been typed.
\<close>

definition sample_env :: "net_behaviour \<Rightarrow> net_behaviour \<Rightarrow> env" where
  "sample_env profileNet aiNet =
     \<lparr>network = (\<lambda>url options. if url = ai_url then aiNet else profileNet),
      clock = (\<lambda>n. js ''10:15:00''),
      numberToString = (\<lambda>q. js ''0''),
      faultMessage = (\<lambda>f. js ''engine fault'')\<rparr>"

definition sample_state :: ui_state where
  "sample_state = initial_state\<lparr>username := js ''octocat''\<rparr>"

text \<open>
  An environment in which both calls succeed, and the state that a first run for
  \<open>octocat\<close> in it leaves behind.
\<close>

definition first_run_env :: env where
  "first_run_env =
     sample_env
       (Completes 900 (Responded 200 (Parsed (JObj [(js ''login'', JStr (js ''octocat''))]))))
       (Completes 2000 (Responded 200 (Parsed (JObj
          [(js ''text_analysis'', JObj [(js ''resume_summary'', JStr (js ''Builds tools''))]),
           (js ''numeric_analysis'', JObj [(js ''overall_score'', JNum 72)])]))))"

definition used_state :: ui_state where
  "used_state = fst (handleAnalyze first_run_env sample_state)"

section \<open>The sanitizer meets its contract\<close>

lemma find_fence_None_drop: "find_fence s = None \<Longrightarrow> find_fence (drop k s) = None"
proof (induction s arbitrary: k)
  case Nil
  then show ?case by simp
next
  case (Cons c cs)
  then have "find_fence cs = None" by (simp split: if_splits)
  with Cons.IH show ?case using Cons.prems by (cases k) simp_all
qed

lemma find_fence_Some_first:
  "find_fence s = Some i \<Longrightarrow> take 3 (drop p s) = fence \<Longrightarrow> i \<le> p"
proof (induction s arbitrary: i p)
  case Nil
  then show ?case by simp
next
  case (Cons c cs)
  show ?case
  proof (cases "take 3 (c # cs) = fence")
    case True
    with Cons.prems show ?thesis by simp
  next
    case False
    with Cons.prems obtain i' where i': "find_fence cs = Some i'" "i = Suc i'" by auto
    from False Cons.prems(2) obtain p' where p': "p = Suc p'" by (cases p) auto
    with Cons.prems(2) have "take 3 (drop p' cs) = fence" by simp
    with Cons.IH i' p' show ?thesis by simp
  qed
qed

lemma replace_fence_unclosed:
  "(\<And>p. take 3 (drop p s) = fence \<Longrightarrow> find_fence (drop (p + 3) s) = None)
   \<Longrightarrow> replace_global match_fence [] s = s"
proof (induction s)
  case Nil
  then show ?case by (simp add: match_fence_def fence_def)
next
  case (Cons c cs)
  have "match_fence (c # cs) = None"
    using Cons.prems [of 0] by (simp add: match_fence_def)
  moreover have "replace_global match_fence [] cs = cs"
  proof (rule Cons.IH)
    fix p assume "take 3 (drop p cs) = fence"
    then have "find_fence (drop (Suc p + 3) (c # cs)) = None"
      using Cons.prems [of "Suc p"] by simp
    then show "find_fence (drop (p + 3) cs) = None"
      by (simp only: add_Suc drop_Suc_Cons)
  qed
  ultimately show ?case by simp
qed

lemma replace_fence_closed:
  "find_fence s = Some i \<Longrightarrow> find_fence (drop (i + 3) s) = Some j
   \<Longrightarrow> replace_global match_fence [] s
       = take i s @ replace_global match_fence [] (drop (i + 3 + j + 3) s)"
proof (induction s arbitrary: i)
  case Nil
  then show ?case by simp
next
  case (Cons c cs)
  show ?case
  proof (cases "take 3 (c # cs) = fence")
    case True
    with Cons.prems have i: "i = 0" by simp
    with Cons.prems True have "match_fence (c # cs) = Some (3 + j + 3)"
      by (simp add: match_fence_def)
    with i show ?thesis by (simp add: add.commute)
  next
    case False
    with Cons.prems obtain i' where i': "find_fence cs = Some i'" "i = Suc i'" by auto
    from False have m: "match_fence (c # cs) = None" by (simp add: match_fence_def)
    from Cons.prems(2) i' have j': "find_fence (drop (i' + 3) cs) = Some j"
      by (simp only: add_Suc drop_Suc_Cons)
    have d: "drop (Suc i' + 3 + j + 3) (c # cs) = drop (i' + 3 + j + 3) cs"
      by (simp only: add_Suc drop_Suc_Cons)
    have "replace_global match_fence [] (c # cs) = c # replace_global match_fence [] cs"
      using m by simp
    also have "replace_global match_fence [] cs
               = take i' cs @ replace_global match_fence [] (drop (i' + 3 + j + 3) cs)"
      by (rule Cons.IH [OF i'(1) j'])
    finally show ?thesis unfolding i'(2) d by simp
  qed
qed

lemma find_fence_Some_length: "find_fence s = Some i \<Longrightarrow> i + 3 \<le> length s"
proof (induction s arbitrary: i)
  case Nil
  then show ?case by simp
next
  case (Cons c cs)
  show ?case
  proof (cases "take 3 (c # cs) = fence")
    case True
    then have "length (take 3 (c # cs)) = 3" by (simp add: fence_def)
    then have "3 \<le> length (c # cs)" by (simp add: min_def split: if_splits)
    moreover from True Cons.prems have "i = 0" by simp
    ultimately show ?thesis by simp
  next
    case False
    with Cons.prems obtain i' where "find_fence cs = Some i'" "i = Suc i'" by auto
    with Cons.IH show ?thesis by simp
  qed
qed

text \<open>The two ways of finding the first fence agree.\<close>

lemma split_at_fence_find:
  "split_at_fence s =
     (case find_fence s of None \<Rightarrow> None | Some i \<Rightarrow> Some (take i s, drop (i + 3) s))"
proof (induction s rule: split_at_fence.induct)
  case (1 x y z r)
  show ?case
  proof (cases "x = 96 \<and> y = 96 \<and> z = 96")
    case True
    then show ?thesis by (simp add: fence_def)
  next
    case False
    then have nf: "take 3 (x # y # z # r) \<noteq> fence" by (auto simp: fence_def)
    have ih: "split_at_fence (y # z # r) =
       (case find_fence (y # z # r) of
          None \<Rightarrow> None
        | Some i \<Rightarrow> Some (take i (y # z # r), drop (i + 3) (y # z # r)))"
      using False by (rule "1.IH")
    show ?thesis
    proof (cases "find_fence (y # z # r)")
      case None
      with False nf ih show ?thesis by simp
    next
      case (Some i)
      have d: "drop (Suc i + 3) (x # y # z # r) = drop (i + 3) (y # z # r)"
        by (simp only: add_Suc drop_Suc_Cons)
      have f: "find_fence (x # y # z # r) = Some (Suc i)" using nf Some by simp
      have "split_at_fence (x # y # z # r)
            = Some (x # take i (y # z # r), drop (i + 3) (y # z # r))"
        using False ih Some by simp
      then show ?thesis unfolding f option.case d by simp
    qed
  qed
qed (simp_all add: fence_def)

lemma remove_fenced_find:
  "remove_fenced s =
     (case find_fence s of
        None \<Rightarrow> s
      | Some i \<Rightarrow>
          (case find_fence (drop (i + 3) s) of
             None \<Rightarrow> s
           | Some j \<Rightarrow> take i s @ remove_fenced (drop (i + 3 + j + 3) s)))"
proof (cases "find_fence s")
  case None
  then show ?thesis by (simp add: remove_fenced.simps [of s] split_at_fence_find)
next
  case (Some i)
  show ?thesis
  proof (cases "find_fence (drop (i + 3) s)")
    case None
    with Some show ?thesis by (simp add: remove_fenced.simps [of s] split_at_fence_find)
  next
    case j: (Some j)
    have "drop (j + 3) (drop (i + 3) s) = drop (i + 3 + j + 3) s"
      by (simp add: add.commute add.left_commute)
    with Some j show ?thesis
      by (simp add: remove_fenced.simps [of s] split_at_fence_find)
  qed
qed

lemma replace_fence_eq: "replace_global match_fence [] s = remove_fenced s"
proof (induction "length s" arbitrary: s rule: less_induct)
  case less
  show ?case
  proof (cases "find_fence s")
    case None
    have "replace_global match_fence [] s = s"
      by (rule replace_fence_unclosed) (simp add: find_fence_None_drop None)
    with None show ?thesis by (simp add: remove_fenced_find [of s])
  next
    case (Some i)
    show ?thesis
    proof (cases "find_fence (drop (i + 3) s)")
      case None
      have "replace_global match_fence [] s = s"
      proof (rule replace_fence_unclosed)
        fix p assume "take 3 (drop p s) = fence"
        with Some have "i \<le> p" by (rule find_fence_Some_first)
        then have "drop (p + 3) s = drop (p - i) (drop (i + 3) s)" by simp
        with None show "find_fence (drop (p + 3) s) = None"
          by (simp only: find_fence_None_drop)
      qed
      with Some None show ?thesis by (simp add: remove_fenced_find [of s])
    next
      case j: (Some j)
      from Some have "i + 3 \<le> length s" by (rule find_fence_Some_length)
      then have "length (drop (i + 3 + j + 3) s) < length s" by simp
      then have ih: "replace_global match_fence [] (drop (i + 3 + j + 3) s)
                     = remove_fenced (drop (i + 3 + j + 3) s)"
        by (rule less)
      from Some j
      have "replace_global match_fence [] s
            = take i s @ replace_global match_fence [] (drop (i + 3 + j + 3) s)"
        by (rule replace_fence_closed)
      with ih Some j show ?thesis by (simp add: remove_fenced_find [of s])
    qed
  qed
qed

lemma collapse_ws_run:
  "isWhiteSpace c \<Longrightarrow> collapse_ws (c # cs) = 32 # collapse_ws (dropWhile isWhiteSpace cs)"
proof (induction cs arbitrary: c)
  case Nil
  then show ?case by simp
next
  case (Cons d ds)
  then show ?case by (cases "isWhiteSpace d") simp_all
qed

lemma collapse_ws_other:
  "\<not> isWhiteSpace c \<Longrightarrow> collapse_ws (c # cs) = c # collapse_ws cs"
  by (cases cs) simp_all

lemma replace_ws_eq: "replace_global match_ws_run [32] s = collapse_ws s"
proof (induction match_ws_run "[32::nat]" s rule: replace_global.induct)
  case 1
  then show ?case by (simp add: match_ws_run_def)
next
  case (2 c cs)
  show ?case
  proof (cases "isWhiteSpace c")
    case True
    let ?n = "length (takeWhile isWhiteSpace (c # cs))"
    from True have m: "match_ws_run (c # cs) = Some ?n" "?n \<noteq> 0"
      by (simp_all add: match_ws_run_def)
    from True have d: "drop ?n (c # cs) = dropWhile isWhiteSpace cs"
      by (simp add: dropWhile_eq_drop)
    from m have "replace_global match_ws_run [32] (drop ?n (c # cs)) = collapse_ws (drop ?n (c # cs))"
      by (rule "2.hyps"(3))
    with m d True show ?thesis by (simp add: collapse_ws_run del: collapse_ws.simps)
  next
    case False
    then have m: "match_ws_run (c # cs) = None" by (simp add: match_ws_run_def)
    then have "replace_global match_ws_run [32] cs = collapse_ws cs" by (rule "2.hyps"(1))
    with m False show ?thesis by (simp add: collapse_ws_other del: collapse_ws.simps)
  qed
qed

lemma truncate_eq:
  "(if indexOf s c > - 1 then slice0 s (indexOf s c) else s) = takeWhile (\<lambda>x. x \<noteq> c) s"
proof (induction s)
  case Nil
  then show ?case by simp
next
  case (Cons x xs)
  show ?case
  proof (cases "x = c")
    case True
    then show ?thesis by (simp add: slice0_def)
  next
    case False
    show ?thesis
    proof (cases "indexOf xs c > - 1")
      case True
      then have "nat (indexOf xs c + 1) = Suc (nat (indexOf xs c))" by simp
      with Cons True False show ?thesis by (simp add: slice0_def Let_def)
    next
      case False
      with Cons \<open>x \<noteq> c\<close> show ?thesis by (simp add: slice0_def Let_def)
    qed
  qed
qed

text \<open>
  The steps do what their names say: a collapsed string is single-spaced and keeps the
  other code units, a fenced segment between plain text disappears, and a sanitized
  entry holds no colon and neither starts nor ends with whitespace.
\<close>

lemma isWhiteSpace_space: "isWhiteSpace 32"
  by (simp add: isWhiteSpace_def)

lemma single_spaced_Cons:
  "single_spaced (x # t) \<longleftrightarrow>
     (isWhiteSpace x \<longrightarrow> x = 32 \<and> (t \<noteq> [] \<longrightarrow> \<not> isWhiteSpace (hd t))) \<and> single_spaced t"
  by (cases t) auto

lemma collapse_ws_Cons:
  "collapse_ws (c # cs) =
     (if isWhiteSpace c then 32 # collapse_ws (dropWhile isWhiteSpace cs)
      else c # collapse_ws cs)"
  by (simp add: collapse_ws_run collapse_ws_other del: collapse_ws.simps(2) collapse_ws.simps(3))

lemma collapse_ws_hd:
  "collapse_ws s \<noteq> [] \<Longrightarrow> \<not> isWhiteSpace (hd s) \<Longrightarrow> hd (collapse_ws s) = hd s"
  by (cases s) (simp_all add: collapse_ws_Cons del: collapse_ws.simps(2) collapse_ws.simps(3))

lemma collapse_ws_Nil: "collapse_ws s = [] \<longleftrightarrow> s = []"
  by (cases s) (simp_all add: collapse_ws_Cons del: collapse_ws.simps(2) collapse_ws.simps(3))

lemma collapse_ws_single_spaced: "single_spaced (collapse_ws s)"
proof (induction "length s" arbitrary: s rule: less_induct)
  case less
  show ?case
  proof (cases s)
    case Nil
    then show ?thesis by simp
  next
    case (Cons c cs)
    show ?thesis
    proof (cases "isWhiteSpace c")
      case True
      let ?r = "dropWhile isWhiteSpace cs"
      have "length ?r < length s" using Cons length_dropWhile_le [of isWhiteSpace cs] by simp
      then have ih: "single_spaced (collapse_ws ?r)" by (rule less)
      have "collapse_ws ?r \<noteq> [] \<Longrightarrow> \<not> isWhiteSpace (hd (collapse_ws ?r))"
      proof -
        assume ne: "collapse_ws ?r \<noteq> []"
        then have "?r \<noteq> []" by (simp add: collapse_ws_Nil)
        then have "\<not> isWhiteSpace (hd ?r)" by (rule hd_dropWhile)
        with ne show ?thesis by (simp add: collapse_ws_hd)
      qed
      with ih True Cons show ?thesis
        by (simp add: collapse_ws_Cons single_spaced_Cons del: collapse_ws.simps(2) collapse_ws.simps(3) single_spaced.simps)
    next
      case False
      have "single_spaced (collapse_ws cs)" using Cons by (intro less) simp
      with False Cons show ?thesis
        by (simp add: collapse_ws_Cons single_spaced_Cons del: collapse_ws.simps(2) collapse_ws.simps(3) single_spaced.simps)
    qed
  qed
qed

lemma collapse_ws_keeps_text:
  "filter (\<lambda>c. \<not> isWhiteSpace c) (collapse_ws s) = filter (\<lambda>c. \<not> isWhiteSpace c) s"
  by (induction s rule: collapse_ws.induct) (simp_all add: isWhiteSpace_space)

lemma set_collapse_ws: "set (collapse_ws s) \<subseteq> insert 32 (set s)"
  by (induction s rule: collapse_ws.induct) auto

lemma set_trim: "set (trim s) \<subseteq> set s"
proof -
  have "set (trim s) \<subseteq> set (rev (dropWhile isWhiteSpace s))"
    unfolding trim_def by (auto dest: set_dropWhileD)
  also have "\<dots> \<subseteq> set s" by (auto dest: set_dropWhileD)
  finally show ?thesis .
qed

lemma split_at_fence_other:
  assumes "x \<noteq> 96"
  shows "split_at_fence (x # t)
         = map_option (\<lambda>(before, behind). (x # before, behind)) (split_at_fence t)"
proof (cases t)
  case Nil
  then show ?thesis by simp
next
  case (Cons y t')
  with assms show ?thesis by (cases t') simp_all
qed

lemma split_at_fence_prefix:
  "96 \<notin> set a \<Longrightarrow>
   split_at_fence (a @ r)
   = map_option (\<lambda>(before, behind). (a @ before, behind)) (split_at_fence r)"
proof (induction a)
  case Nil
  show ?case by (cases "split_at_fence r") auto
next
  case (Cons x a)
  then have "x \<noteq> 96" "96 \<notin> set a" by auto
  with Cons.IH show ?case
    by (cases "split_at_fence r") (auto simp: split_at_fence_other)
qed

lemma remove_fenced_prefix:
  assumes "96 \<notin> set a"
  shows "remove_fenced (a @ c) = a @ remove_fenced c"
proof (cases "split_at_fence c")
  case None
  with assms show ?thesis
    by (simp add: remove_fenced.simps [of "a @ c"] remove_fenced.simps [of c]
        split_at_fence_prefix)
next
  case (Some x)
  then obtain before rest where x: "split_at_fence c = Some (before, rest)"
    by (cases x) simp
  with assms show ?thesis
    by (cases "split_at_fence rest")
      (auto simp: remove_fenced.simps [of "a @ c"] remove_fenced.simps [of c]
        split_at_fence_prefix)
qed

lemma remove_fenced_block:
  assumes "96 \<notin> set b"
  shows "remove_fenced (js ''```'' @ b @ js ''```'' @ c) = remove_fenced c"
proof -
  have "split_at_fence (b @ js ''```'' @ c) = Some (b, c)"
    using assms by (simp add: split_at_fence_prefix)
  then show ?thesis
    by (simp add: remove_fenced.simps [of "96 # 96 # 96 # b @ 96 # 96 # 96 # c"])
qed

lemma remove_fenced_segment:
  assumes "96 \<notin> set a" and "96 \<notin> set b"
  shows "remove_fenced (a @ js ''```'' @ b @ js ''```'' @ c) = remove_fenced (a @ c)"
proof -
  have "remove_fenced (a @ js ''```'' @ b @ js ''```'' @ c)
        = a @ remove_fenced (js ''```'' @ b @ js ''```'' @ c)"
    using assms(1) by (rule remove_fenced_prefix)
  also have "\<dots> = a @ remove_fenced c"
    by (simp only: remove_fenced_block [OF assms(2)])
  also have "\<dots> = remove_fenced (a @ c)"
    using assms(1) by (rule remove_fenced_prefix [symmetric])
  finally show ?thesis .
qed

lemma sanitizeLogEntry_steps:
  "sanitizeLogEntry (JStr s) = trim (collapse_ws (truncate_at_colon (remove_fenced s)))"
  by (simp add: sanitizeLogEntry_def truncate_at_colon_def Let_def
      replace_fence_eq replace_ws_eq truncate_eq del: replace_global.simps)

lemma single_spaced_append:
  "single_spaced (xs @ ys) \<Longrightarrow> single_spaced xs \<and> single_spaced ys"
proof (induction xs)
  case Nil
  then show ?case by simp
next
  case (Cons x xs)
  then show ?case
    by (cases xs) (auto simp: single_spaced_Cons simp del: single_spaced.simps)
qed

lemma trim_infix: "\<exists>p q. s = p @ trim s @ q"
proof -
  let ?d = "dropWhile isWhiteSpace s"
  have "rev (takeWhile isWhiteSpace (rev ?d) @ dropWhile isWhiteSpace (rev ?d)) = ?d"
    by (simp only: takeWhile_dropWhile_id rev_rev_ident)
  then have "rev (dropWhile isWhiteSpace (rev ?d)) @ rev (takeWhile isWhiteSpace (rev ?d)) = ?d"
    by (simp only: rev_append)
  then have "?d = trim s @ rev (takeWhile isWhiteSpace (rev ?d))"
    unfolding trim_def by (rule sym)
  moreover have "s = takeWhile isWhiteSpace s @ ?d" by simp
  ultimately have "s = takeWhile isWhiteSpace s @ trim s @ rev (takeWhile isWhiteSpace (rev ?d))"
    by simp
  then show ?thesis by blast
qed

lemma single_spaced_trim: "single_spaced s \<Longrightarrow> single_spaced (trim s)"
proof -
  assume a: "single_spaced s"
  obtain p q where "s = p @ trim s @ q" using trim_infix by blast
  with a have "single_spaced (p @ trim s @ q)" by simp
  then have "single_spaced (trim s @ q)" by (blast dest: single_spaced_append)
  then show ?thesis by (blast dest: single_spaced_append)
qed

lemma sanitized_single_spaced: "single_spaced (sanitizeLogEntry v)"
proof (cases v)
  case (JStr s)
  then show ?thesis
    by (simp add: sanitizeLogEntry_steps single_spaced_trim collapse_ws_single_spaced)
qed (simp_all add: sanitizeLogEntry_def)

lemma sanitized_no_colon: "58 \<notin> set (sanitizeLogEntry v)"
proof (cases v)
  case (JStr s)
  let ?t = "takeWhile (\<lambda>c. c \<noteq> 58) (replace_global match_fence [] s)"
  have "sanitizeLogEntry v = trim (collapse_ws ?t)"
    using JStr
    by (simp add: sanitizeLogEntry_def Let_def replace_ws_eq truncate_eq
        del: replace_global.simps)
  moreover have "58 \<notin> set ?t" by (auto dest: set_takeWhileD)
  ultimately show ?thesis using set_trim [of "collapse_ws ?t"] set_collapse_ws [of ?t] by auto
qed (simp_all add: sanitizeLogEntry_def)

lemma trim_ends:
  assumes "trim s \<noteq> []"
  shows "\<not> isWhiteSpace (hd (trim s)) \<and> \<not> isWhiteSpace (last (trim s))"
proof -
  let ?d = "dropWhile isWhiteSpace s"
  let ?e = "dropWhile isWhiteSpace (rev ?d)"
  from assms have e: "?e \<noteq> []" by (simp add: trim_def)
  have d: "?d \<noteq> []"
  proof
    assume "?d = []"
    then have "?e = []" by (simp only: rev.simps dropWhile.simps)
    with e show False by simp
  qed
  have "last (trim s) = hd ?e" using e by (simp add: trim_def last_rev)
  moreover have "\<not> isWhiteSpace (hd ?e)" using e by (rule hd_dropWhile)
  moreover have "hd (trim s) = last ?e" using e by (simp add: trim_def hd_rev)
  moreover have "last ?e = last (rev ?d)"
  proof -
    have "rev ?d = takeWhile isWhiteSpace (rev ?d) @ ?e" by simp
    then have "last (rev ?d) = last (takeWhile isWhiteSpace (rev ?d) @ ?e)" by simp
    also have "\<dots> = last ?e" using e by (rule last_appendR)
    finally show ?thesis by simp
  qed
  moreover have "last (rev ?d) = hd ?d" using d by (simp add: last_rev)
  moreover have "\<not> isWhiteSpace (hd ?d)" using d by (rule hd_dropWhile)
  ultimately show ?thesis by simp
qed

lemma sanitized_trimmed:
  "sanitizeLogEntry v \<noteq> [] \<Longrightarrow>
   \<not> isWhiteSpace (hd (sanitizeLogEntry v)) \<and> \<not> isWhiteSpace (last (sanitizeLogEntry v))"
  by (cases v) (simp_all add: sanitizeLogEntry_def Let_def trim_ends del: replace_global.simps)

text \<open>
  Claim C3. Given a string, the log sanitizer removes every fenced code-block segment,
  then truncates the remainder at its first colon, collapses each run of whitespace to a
  single space and trims leading and trailing whitespace; given a value that is not a
  string it returns the empty string. Sanitizing
  \<open>build failed: ```stack trace``` extra\<close> yields \<open>build failed\<close>.

  Beside the equation with the four steps the theorem states what they achieve on the
  code: a fenced segment between texts without backticks leaves no trace in the result,
  the result holds no colon, its whitespace is single spaces, and it neither starts nor
  ends with whitespace.
\<close>

theorem sanitizeLogEntry_contract:
  assumes "96 \<notin> set a" and "96 \<notin> set b"
  shows
  "sanitizeLogEntry (JStr s) = trim (collapse_ws (truncate_at_colon (remove_fenced s)))
   \<and> sanitizeLogEntry (JStr (a @ js ''```'' @ b @ js ''```'' @ c))
       = sanitizeLogEntry (JStr (a @ c))
   \<and> 58 \<notin> set (sanitizeLogEntry v)
   \<and> single_spaced (sanitizeLogEntry v)
   \<and> (sanitizeLogEntry v \<noteq> [] \<longrightarrow>
        \<not> isWhiteSpace (hd (sanitizeLogEntry v))
        \<and> \<not> isWhiteSpace (last (sanitizeLogEntry v)))
   \<and> sanitizeLogEntry JNull = []
   \<and> sanitizeLogEntry (JBool t) = []
   \<and> sanitizeLogEntry (JNum q) = []
   \<and> sanitizeLogEntry (JArr xs) = []
   \<and> sanitizeLogEntry (JObj kvs) = []
   \<and> sanitizeLogEntry (JStr (js ''build failed: ```stack trace``` extra''))
       = js ''build failed''
   \<and> sanitizeLogEntry (JStr (js ''a```b```c'')) = js ''ac''
   \<and> sanitizeLogEntry
         (JStr (js ''  run ```x: y```   tests'' @ [9, 10] @ js ''now : later''))
       = js ''run tests now''"
proof -
  have "sanitizeLogEntry (JStr (a @ js ''```'' @ b @ js ''```'' @ c))
        = sanitizeLogEntry (JStr (a @ c))"
    using remove_fenced_segment [OF assms, of c]
    by (simp only: sanitizeLogEntry_steps)
  moreover have "sanitizeLogEntry (JStr (js ''build failed: ```stack trace``` extra''))
                 = js ''build failed''"
    by (simp add: sanitizeLogEntry_def Let_def match_fence_def match_ws_run_def fence_def
        isWhiteSpace_def trim_def slice0_def)
  moreover have "sanitizeLogEntry (JStr (js ''a```b```c'')) = js ''ac''"
    by (simp add: sanitizeLogEntry_def Let_def match_fence_def match_ws_run_def fence_def
        isWhiteSpace_def trim_def slice0_def)
  moreover have "sanitizeLogEntry
         (JStr (js ''  run ```x: y```   tests'' @ [9, 10] @ js ''now : later''))
       = js ''run tests now''"
    by (simp add: sanitizeLogEntry_def Let_def match_fence_def match_ws_run_def fence_def
        isWhiteSpace_def trim_def slice0_def)
  moreover have "sanitizeLogEntry JNull = []" "sanitizeLogEntry (JBool t) = []"
    "sanitizeLogEntry (JNum q) = []" "sanitizeLogEntry (JArr xs) = []"
    "sanitizeLogEntry (JObj kvs) = []"
    by (simp_all add: sanitizeLogEntry_def)
  ultimately show ?thesis
    using sanitizeLogEntry_steps [of s] sanitized_no_colon [of v]
      sanitized_single_spaced [of v] sanitized_trimmed [of v]
    by blast
qed

text \<open>
  A fenced segment that holds a colon, between \<open>load \<close> and \<open> done\<close>, and an entry with
  whitespace at both ends and a double space inside.
\<close>

theorem sanitizeLogEntry_contract_witness:
  "96 \<notin> set (js ''load '') \<and> 96 \<notin> set (js ''x: y'')
   \<and> sanitizeLogEntry (JStr (js ''load '' @ js ''```'' @ js ''x: y'' @ js ''```'' @ js ''done''))
     = js ''load done''
   \<and> sanitizeLogEntry (JStr (js '' a  b '')) = js ''a b''
   \<and> single_spaced (sanitizeLogEntry (JStr (js '' a  b '')))
   \<and> \<not> isWhiteSpace (hd (sanitizeLogEntry (JStr (js '' a  b ''))))
   \<and> \<not> isWhiteSpace (last (sanitizeLogEntry (JStr (js '' a  b ''))))"
proof -
  have h: "96 \<notin> set (js ''load '')" "96 \<notin> set (js ''x: y'')" by simp_all
  have e: "sanitizeLogEntry (JStr (js ''load '' @ js ''done'')) = js ''load done''"
    "sanitizeLogEntry (JStr (js '' a  b '')) = js ''a b''"
    by (simp_all add: sanitizeLogEntry_def Let_def match_fence_def match_ws_run_def fence_def
        isWhiteSpace_def trim_def slice0_def)
  note c = sanitizeLogEntry_contract
    [OF h, of "js '' a  b ''" "js ''done''" "JStr (js '' a  b '')"]
  from c have seg:
    "sanitizeLogEntry (JStr (js ''load '' @ js ''```'' @ js ''x: y'' @ js ''```'' @ js ''done''))
     = sanitizeLogEntry (JStr (js ''load '' @ js ''done''))"
    by blast
  from c have shape: "single_spaced (sanitizeLogEntry (JStr (js '' a  b '')))"
    by blast
  from c have ends:
    "sanitizeLogEntry (JStr (js '' a  b '')) \<noteq> [] \<longrightarrow>
       \<not> isWhiteSpace (hd (sanitizeLogEntry (JStr (js '' a  b ''))))
       \<and> \<not> isWhiteSpace (last (sanitizeLogEntry (JStr (js '' a  b ''))))"
    by blast
  from e(2) have ne: "sanitizeLogEntry (JStr (js '' a  b '')) \<noteq> []" by simp
  from h seg e shape ends ne show ?thesis by (simp only: simp_thms)
qed

section \<open>The byte-size formatter on the two sizes of the specification\<close>

lemma log1024_floor_eq:
  "0 < b \<Longrightarrow> int (log1024_floor b) = \<lfloor>ln (real b) / ln 1024\<rfloor>"
proof -
  assume b: "0 < b"
  then have "0 \<le> log 1024 (real b)" by simp
  then have "0 \<le> \<lfloor>log 1024 (real b)\<rfloor>" by simp
  with b show ?thesis by (simp add: log1024_floor_def floorlog_def log_def)
qed

lemma log1024_floor_1536: "log1024_floor 1536 = 1"
  by (simp add: log1024_floor_def compute_floorlog)

lemma floor_31_halves: "\<lfloor>31 / 2 :: rat\<rfloor> = 15"
  by (rule floor_unique) simp_all

text \<open>
  Claim C9. The byte-size formatter maps 0 to \<open>0 B\<close> and 1536 to \<open>1.5 KB\<close>.
\<close>

theorem formatBytes_examples:
  "formatBytes (Some 0) = js ''0 B'' \<and> formatBytes (Some 1536) = js ''1.5 KB''"
  by (simp add: formatBytes_def log1024_floor_1536 toFixed1_def floor_31_halves units_def
      Let_def decimal.simps)

section \<open>Derived career actions\<close>

lemma fold_actions:
  "fold (\<lambda>(skill, score) actions.
           if score < 50 then actions @ [suggestion f skill score] else actions) entries acc
   = acc @ map (\<lambda>(skill, score). suggestion f skill score)
             (filter (\<lambda>(skill, score). score < 50) entries)"
  by (induction entries arbitrary: acc) (auto split: prod.splits)

text \<open>
  Claim C4. The derived action list holds one suggestion, naming the skill and its
  score, for each skill whose score is strictly below 50, in the iteration order of the
  mapping, capped at 4 entries; it is empty when the numeric insights are absent or have
  no skills mapping.

  A suggestion is the skill's name, the words \<open> skills are at \<close>, the score as the
  engine prints it, and the closing sentence. The two instances take scores that print
  as plain digits: the mapping of the specification, and one with five skills below 50.
\<close>

theorem derivedCareerActions_spec:
  "derivedCareerActions f (Some \<lparr>skills = Some entries, overall_score = r\<rparr>)
     = take 4
         (map (\<lambda>(skill, score).
                 skill @ js '' skills are at '' @ f score
                 @ js ''. Focus on targeted projects or courses to lift this metric.'')
            (filter (\<lambda>(skill, score). score < 50) entries))
   \<and> length (derivedCareerActions f (Some \<lparr>skills = Some entries, overall_score = r\<rparr>)) \<le> 4
   \<and> derivedCareerActions f None = []
   \<and> derivedCareerActions f (Some \<lparr>skills = None, overall_score = r\<rparr>) = []
   \<and> derivedCareerActions integer_digits
         (Some \<lparr>skills = Some [(js ''Go'', 40), (js ''Rust'', 70), (js ''Python'', 20),
                                (js ''C'', 10), (js ''Java'', 5)],
                 overall_score = r\<rparr>)
       = [js ''Go skills are at 40. Focus on targeted projects or courses to lift this metric.'',
          js ''Python skills are at 20. Focus on targeted projects or courses to lift this metric.'',
          js ''C skills are at 10. Focus on targeted projects or courses to lift this metric.'',
          js ''Java skills are at 5. Focus on targeted projects or courses to lift this metric.'']
   \<and> derivedCareerActions integer_digits
         (Some \<lparr>skills = Some [(js ''A'', 49), (js ''B'', 0), (js ''C'', 50), (js ''D'', 7),
                                (js ''E'', 12), (js ''F'', 3)],
                 overall_score = r\<rparr>)
       = [js ''A skills are at 49. Focus on targeted projects or courses to lift this metric.'',
          js ''B skills are at 0. Focus on targeted projects or courses to lift this metric.'',
          js ''D skills are at 7. Focus on targeted projects or courses to lift this metric.'',
          js ''E skills are at 12. Focus on targeted projects or courses to lift this metric.'']"
proof -
  have general:
    "derivedCareerActions g (Some \<lparr>skills = Some es, overall_score = r\<rparr>)
     = take 4
         (map (\<lambda>(skill, score).
                 skill @ js '' skills are at '' @ g score
                 @ js ''. Focus on targeted projects or courses to lift this metric.'')
            (filter (\<lambda>(skill, score). score < 50) es))" for g es
    by (simp add: derivedCareerActions_def fold_actions suggestion_def)
  have digits: "integer_digits 40 = js ''40''" "integer_digits 20 = js ''20''"
    "integer_digits 10 = js ''10''" "integer_digits 5 = js ''5''"
    "integer_digits 49 = js ''49''" "integer_digits 0 = js ''0''"
    "integer_digits 7 = js ''7''" "integer_digits 12 = js ''12''"
    by (simp_all add: integer_digits_def decimal.simps)
  have "length (derivedCareerActions f (Some \<lparr>skills = Some entries, overall_score = r\<rparr>)) \<le> 4"
    by (simp add: general)
  moreover have "derivedCareerActions f None = []"
    "derivedCareerActions f (Some \<lparr>skills = None, overall_score = r\<rparr>) = []"
    by (simp_all add: derivedCareerActions_def)
  ultimately show ?thesis
    by (simp add: general digits)
qed

section \<open>State and log bookkeeping\<close>

lemma trim_empty_iff: "trim s = [] \<longleftrightarrow> list_all isWhiteSpace s"
proof
  assume "trim s = []"
  then have "\<forall>x\<in>set (dropWhile isWhiteSpace s). isWhiteSpace x"
    by (simp add: trim_def dropWhile_eq_Nil_conv)
  then have "dropWhile isWhiteSpace s = []"
    using hd_dropWhile [of isWhiteSpace s] hd_in_set [of "dropWhile isWhiteSpace s"] by blast
  then show "list_all isWhiteSpace s"
    by (simp add: dropWhile_eq_Nil_conv list_all_iff)
next
  assume "list_all isWhiteSpace s"
  then have d: "dropWhile isWhiteSpace s = []"
    by (simp add: dropWhile_eq_Nil_conv list_all_iff)
  show "trim s = []" by (simp only: trim_def d rev.simps dropWhile.simps)
qed

lemma appendLog_fields [simp]:
  "error (appendLog env m st) = error st"
  "loading (appendLog env m st) = loading st"
  "username (appendLog env m st) = username st"
  "githubData (appendLog env m st) = githubData st"
  "aiInsights (appendLog env m st) = aiInsights st"
  "numericInsights (appendLog env m st) = numericInsights st"
  by (simp_all add: appendLog_def Let_def)

lemma appendLog_messages:
  "map message (logs (appendLog env m st))
   = map message (logs st) @ (if m = [] then [] else [m])"
  by (simp add: appendLog_def Let_def)

lemma appendLog_prefix: "\<exists>new. logs (appendLog env m st) = logs st @ new"
  by (simp add: appendLog_def Let_def)

lemma fold_appendLog_error [simp]:
  "error (fold (\<lambda>entry. appendLog env entry) ms st) = error st"
  by (induction ms arbitrary: st) simp_all

lemma fold_appendLog_prefix:
  "\<exists>new. logs (fold (\<lambda>entry. appendLog env entry) ms st) = logs st @ new"
proof (induction ms arbitrary: st)
  case Nil
  then show ?case by simp
next
  case (Cons m ms)
  obtain n1 where "logs (appendLog env m st) = logs st @ n1"
    using appendLog_prefix by blast
  moreover obtain n2 where
    "logs (fold (\<lambda>entry. appendLog env entry) ms (appendLog env m st))
     = logs (appendLog env m st) @ n2"
    using Cons.IH by blast
  ultimately show ?case by simp
qed

lemma handleFailure_error:
  "error (handleFailure env err st) =
     (case err of
        AbortError \<Rightarrow> js ''Request timed out. Please try again.''
      | Error m \<Rightarrow> if m \<noteq> [] then m else js ''Something went wrong. Try again.'')"
  by (simp add: handleFailure_def Let_def split: js_error.splits)

lemma handleFailure_logs:
  "map message (logs (handleFailure env err st)) = map message (logs st) @ [js ''Analysis failed'']"
  by (simp add: handleFailure_def Let_def appendLog_messages split: js_error.splits)

lemma handleFailure_last:
  "logs (handleFailure env err st) \<noteq> []
   \<and> message (last (logs (handleFailure env err st))) = js ''Analysis failed''"
proof -
  let ?l = "logs (handleFailure env err st)"
  have m: "map message ?l = map message (logs st) @ [js ''Analysis failed'']"
    by (rule handleFailure_logs)
  then have ne: "?l \<noteq> []" by auto
  then have "message (last ?l) = last (map message ?l)" by (simp add: last_map)
  with m ne show ?thesis by simp
qed

lemma handleFailure_prefix: "\<exists>new. logs (handleFailure env err st) = logs st @ new"
  by (simp add: handleFailure_def Let_def appendLog_def split: js_error.splits)

lemma finishRun_error [simp]: "error (finishRun env r st) = error st"
  by (simp add: finishRun_def Let_def split: option.splits json.splits)

lemma finishRun_prefix: "\<exists>new. logs (finishRun env r st) = logs st @ new"
proof -
  let ?st1 = "st\<lparr>aiInsights := or_null (get_prop r (js ''text_analysis'')),
                  numericInsights := or_null (get_prop r (js ''numeric_analysis''))\<rparr>"
  let ?st2 = "(case get_prop r (js ''logs'') of
        Some (JArr entries) \<Rightarrow>
          if length entries > 0
          then fold (\<lambda>entry. appendLog env entry)
                 (filter (\<lambda>entry. entry \<noteq> []) (map sanitizeLogEntry entries)) ?st1
          else ?st1
      | _ \<Rightarrow> ?st1)"
  have l1: "logs ?st1 = logs st" by simp
  have "\<exists>new. logs ?st2 = logs ?st1 @ new"
    using fold_appendLog_prefix [of env _ ?st1]
    by (auto split: option.splits json.splits)
  then obtain n1 where n1: "logs ?st2 = logs st @ n1" using l1 by auto
  obtain n2 where n2: "logs (appendLog env (js ''AI pipeline completed successfully'') ?st2)
                       = logs ?st2 @ n2"
    using appendLog_prefix by blast
  have "logs (finishRun env r st)
        = logs (appendLog env (js ''AI pipeline completed successfully'') ?st2)"
    unfolding finishRun_def Let_def by simp
  with n1 n2 show ?thesis by simp
qed

lemma startRun_fields:
  "error (startRun env st) = []"
  "githubData (startRun env st) = JNull"
  "aiInsights (startRun env st) = JNull"
  "numericInsights (startRun env st) = JNull"
  "username (startRun env st) = username st"
  "map message (logs (startRun env st))
   = [js ''Kickstarting GitHub profile analysis'',
      js ''Requesting repository intelligence from backend'']"
  by (simp_all add: startRun_def startUpdates_def appendLog_messages)

lemma aiUpdates_applied:
  "error (fold (apply_update env) (aiUpdates pd) st) = error st"
  "\<exists>new. logs (fold (apply_update env) (aiUpdates pd) st) = logs st @ new"
  by (simp_all add: aiUpdates_def appendLog_def Let_def)


section \<open>Error messages of the two calls\<close>

lemma getResponseError_fresh:
  "getResponseError env \<lparr>status = c, body = b, bodyUsed = False\<rparr> fb
   = (case body_error b of
        Some e \<Rightarrow> e
      | None \<Rightarrow> if c = 404 then js ''GitHub user not found.'' else fb)"
proof (cases b)
  case Unparseable
  then show ?thesis
    by (simp add: getResponseError_def clone_def response_json_def body_error_def)
next
  case (Parsed j)
  show ?thesis
  proof (cases j)
    case (JObj kvs)
    show ?thesis
    proof (cases "map_of kvs (js ''error'')")
      case None
      with Parsed JObj show ?thesis
        by (simp add: getResponseError_def clone_def response_json_def body_error_def)
    next
      case (Some v)
      with Parsed JObj show ?thesis
        by (cases v)
          (simp_all add: getResponseError_def clone_def response_json_def body_error_def
            trim_empty_iff)
    qed
  qed (simp_all add: Parsed getResponseError_def clone_def response_json_def body_error_def)
qed

lemma getResponseError_used:
  "bodyUsed r \<Longrightarrow>
   getResponseError env r fb = (if status r = 404 then js ''GitHub user not found.'' else fb)"
  by (simp add: getResponseError_def clone_def)

lemma profileError_404:
  "status r = 404 \<Longrightarrow>
   profileError env r = Error (js ''GitHub user not found. Please check the username.'')"
  by (simp add: profileError_def Let_def split_def)

lemma profileError_403:
  "status r = 403 \<Longrightarrow>
   profileError env r
   = Error (js ''GitHub API rate limit exceeded. Please try again later.'')"
  by (simp add: profileError_def Let_def split_def)

lemma profileError_default:
  assumes "status r \<noteq> 404" "status r \<noteq> 403" "\<not> bodyUsed r" "body r = Parsed j"
    and "\<not> truthy (get_prop j (js ''error''))"
  shows "profileError env r = Error (js ''Failed to fetch GitHub profile data'')"
proof (cases "j = JNull")
  case True
  with assms show ?thesis
    by (simp add: profileError_def Let_def split_def response_json_def
        getResponseError_used)
next
  case False
  with assms show ?thesis
    by (cases "get_prop j (js ''error'')")
      (simp_all add: profileError_def Let_def split_def response_json_def)
qed

lemma handleAnalyze_profile_not_ok:
  assumes "trim (username st) \<noteq> []"
    and "network env (profile_url (username st)) profile_options
         = Completes t (Responded code b)"
    and "t \<le> PROFILE_TIMEOUT"
    and "\<not> (200 \<le> code \<and> code \<le> 299)"
  shows "fst (handleAnalyze env st)
         = handleFailure env
             (profileError env \<lparr>status = code, body = b, bodyUsed = False\<rparr>)
             (startRun env st)"
  using assms by (simp add: handleAnalyze_def fetchWithTimeout_def ok_def Let_def)

lemma handleAnalyze_profile_ok:
  assumes "trim (username st) \<noteq> []"
    and "network env (profile_url (username st)) profile_options
         = Completes t (Responded code (Parsed pd))"
    and "t \<le> PROFILE_TIMEOUT"
    and "200 \<le> code" "code \<le> 299"
  shows "fst (handleAnalyze env st) = fst (aiStage env pd (startRun env st))"
    and "map snd (snd (handleAnalyze env st))
         = Fetch (profile_url (username st)) profile_options
           # map snd (snd (aiStage env pd (startRun env st)))"
  using assms
  by (simp_all add: handleAnalyze_def fetchWithTimeout_def ok_def Let_def split_def
      response_json_def)

text \<open>
  Claim C1. For a profile response that is not a success, status 404 surfaces exactly
  \<open>GitHub user not found. Please check the username.\<close> and status 403 surfaces exactly
  \<open>GitHub API rate limit exceeded. Please try again later.\<close>, whatever the body of
  the response carries.
\<close>

theorem profile_canned_messages:
  assumes "trim (username st) \<noteq> []"
    and "network env (profile_url (username st)) profile_options
         = Completes t (Responded code b)"
    and "t \<le> PROFILE_TIMEOUT"
  shows "(code = 404 \<longrightarrow>
            error (fst (handleAnalyze env st))
            = js ''GitHub user not found. Please check the username.'')
       \<and> (code = 403 \<longrightarrow>
            error (fst (handleAnalyze env st))
            = js ''GitHub API rate limit exceeded. Please try again later.'')"
proof (intro conjI impI)
  assume c: "code = 404"
  then have "\<not> (200 \<le> code \<and> code \<le> 299)" by simp
  from handleAnalyze_profile_not_ok [OF assms this] c
  show "error (fst (handleAnalyze env st))
        = js ''GitHub user not found. Please check the username.''"
    by (simp add: handleFailure_error profileError_404)
next
  assume c: "code = 403"
  then have "\<not> (200 \<le> code \<and> code \<le> 299)" by simp
  from handleAnalyze_profile_not_ok [OF assms this] c
  show "error (fst (handleAnalyze env st))
        = js ''GitHub API rate limit exceeded. Please try again later.''"
    by (simp add: handleFailure_error profileError_403)
qed

lemma sample_username: "trim (username sample_state) \<noteq> []"
  by (simp add: sample_state_def initial_state_def trim_def isWhiteSpace_def)

lemma sample_network_profile:
  "network (sample_env p a) (profile_url (username sample_state)) profile_options = p"
  by (simp add: sample_env_def sample_state_def initial_state_def profile_url_def ai_url_def)

lemma sample_network_ai: "network (sample_env p a) ai_url options = a"
  by (simp add: sample_env_def)

text \<open>
  A 404 and a 403 response whose bodies carry error texts of their own.
\<close>

theorem profile_canned_messages_witness:
  "error (fst (handleAnalyze
       (sample_env (Completes 350 (Responded 404
           (Parsed (JObj [(js ''error'', JStr (js ''Not Found''))])))) Never)
       sample_state))
     = js ''GitHub user not found. Please check the username.''
   \<and> error (fst (handleAnalyze
       (sample_env (Completes 350 (Responded 403
           (Parsed (JObj [(js ''error'', JStr (js ''API rate limit exceeded''))])))) Never)
       sample_state))
     = js ''GitHub API rate limit exceeded. Please try again later.''"
proof -
  have t: "(350::nat) \<le> PROFILE_TIMEOUT" by (simp add: PROFILE_TIMEOUT_def)
  show ?thesis
    using profile_canned_messages [OF sample_username sample_network_profile t,
        of 404 "Parsed (JObj [(js ''error'', JStr (js ''Not Found''))])" Never]
      profile_canned_messages [OF sample_username sample_network_profile t,
        of 403 "Parsed (JObj [(js ''error'', JStr (js ''API rate limit exceeded''))])" Never]
    by simp
qed

text \<open>
  Claim C10. For a profile response that is not a success, whose status is neither 404
  nor 403 and whose body parses as JSON but holds no truthy \<open>error\<close> field, the
  surfaced error is exactly \<open>Failed to fetch GitHub profile data\<close>.
\<close>

theorem profile_default_message:
  assumes "trim (username st) \<noteq> []"
    and "network env (profile_url (username st)) profile_options
         = Completes t (Responded code (Parsed j))"
    and "t \<le> PROFILE_TIMEOUT"
    and "\<not> (200 \<le> code \<and> code \<le> 299)"
    and "code \<noteq> 404" "code \<noteq> 403"
    and "\<not> truthy (get_prop j (js ''error''))"
  shows "error (fst (handleAnalyze env st)) = js ''Failed to fetch GitHub profile data''"
proof -
  have "profileError env \<lparr>status = code, body = Parsed j, bodyUsed = False\<rparr>
        = Error (js ''Failed to fetch GitHub profile data'')"
    using assms(5-7) by (intro profileError_default) simp_all
  with handleAnalyze_profile_not_ok [OF assms(1-4)] show ?thesis
    by (simp add: handleFailure_error)
qed

text \<open>A status 500 response whose body is an object without an \<open>error\<close> field.\<close>

theorem profile_default_message_witness:
  "error (fst (handleAnalyze
       (sample_env (Completes 350 (Responded 500 (Parsed (JObj [(js ''detail'', JNull)]))))
          Never)
       sample_state))
   = js ''Failed to fetch GitHub profile data''"
proof -
  have t: "(350::nat) \<le> PROFILE_TIMEOUT" by (simp add: PROFILE_TIMEOUT_def)
  show ?thesis
    using profile_default_message [OF sample_username sample_network_profile t,
        of 500 "JObj [(js ''detail'', JNull)]" Never]
    by simp
qed


lemma body_error_nonempty: "body_error b = Some e \<Longrightarrow> e \<noteq> []"
  by (auto simp: body_error_def split: body_text.splits json.splits option.splits if_splits)

lemma aiStage_not_ok:
  assumes "network env ai_url (ai_options pd) = Completes t (Responded code b)"
    and "t \<le> AI_TIMEOUT"
    and "\<not> (200 \<le> code \<and> code \<le> 299)"
  shows "error (fst (aiStage env pd st))
         = (case body_error b of
              Some e \<Rightarrow> e
            | None \<Rightarrow> if code = 404 then js ''GitHub user not found.''
                       else js ''AI analysis failed'')"
  using assms
  by (auto simp: aiStage_def fetchWithTimeout_def ok_def Let_def handleFailure_error
      getResponseError_fresh dest: body_error_nonempty split: option.splits)

text \<open>
  Claim C7. For an AI response that is not a success, the surfaced error is the body's
  \<open>error\<close> field verbatim when that is a non-blank string, otherwise
  \<open>GitHub user not found.\<close> for status 404, otherwise \<open>AI analysis failed\<close>. The
  canned messages of the profile call are not applied: a 403 without a body error
  surfaces \<open>AI analysis failed\<close>.
\<close>

theorem ai_error_message:
  assumes "trim (username st) \<noteq> []"
    and "network env (profile_url (username st)) profile_options
         = Completes t1 (Responded c1 (Parsed pd))"
    and "t1 \<le> PROFILE_TIMEOUT" and "200 \<le> c1" and "c1 \<le> 299"
    and "network env ai_url (ai_options pd) = Completes t2 (Responded c2 b)"
    and "t2 \<le> AI_TIMEOUT" and "\<not> (200 \<le> c2 \<and> c2 \<le> 299)"
  shows "error (fst (handleAnalyze env st))
         = (case body_error b of
              Some e \<Rightarrow> e
            | None \<Rightarrow> if c2 = 404 then js ''GitHub user not found.''
                       else js ''AI analysis failed'')
       \<and> (c2 = 403 \<and> body_error b = None \<longrightarrow>
            error (fst (handleAnalyze env st)) = js ''AI analysis failed'')"
proof -
  have "error (fst (handleAnalyze env st)) = error (fst (aiStage env pd (startRun env st)))"
    using handleAnalyze_profile_ok(1) [OF assms(1-5)] by simp
  also have "\<dots> = (case body_error b of
              Some e \<Rightarrow> e
            | None \<Rightarrow> if c2 = 404 then js ''GitHub user not found.''
                       else js ''AI analysis failed'')"
    using assms(6-8) by (rule aiStage_not_ok)
  finally show ?thesis by simp
qed

text \<open>
  A 403 from the AI address with an empty object as body, and a 500 whose body names
  its error.
\<close>

theorem ai_error_message_witness:
  "error (fst (handleAnalyze
       (sample_env (Completes 900 (Responded 200 (Parsed (JObj []))))
          (Completes 2000 (Responded 403 (Parsed (JObj [])))))
       sample_state))
     = js ''AI analysis failed''
   \<and> error (fst (handleAnalyze
       (sample_env (Completes 900 (Responded 200 (Parsed (JObj []))))
          (Completes 2000 (Responded 500
             (Parsed (JObj [(js ''error'', JStr (js ''model overloaded''))])))))
       sample_state))
     = js ''model overloaded''"
proof -
  have t1: "(900::nat) \<le> PROFILE_TIMEOUT" by (simp add: PROFILE_TIMEOUT_def)
  have t2: "(2000::nat) \<le> AI_TIMEOUT" by (simp add: AI_TIMEOUT_def)
  have c: "(200::nat) \<le> 200" "(200::nat) \<le> 299" by simp_all
  have n403: "\<not> (200 \<le> (403::nat) \<and> (403::nat) \<le> 299)" by simp
  have n500: "\<not> (200 \<le> (500::nat) \<and> (500::nat) \<le> 299)" by simp
  show ?thesis
    using ai_error_message [OF sample_username sample_network_profile t1 c
            sample_network_ai t2 n403]
      ai_error_message [OF sample_username sample_network_profile t1 c
            sample_network_ai t2 n500]
    by (simp add: body_error_def isWhiteSpace_def)
qed

section \<open>Timeouts\<close>

lemma fetchWithTimeout_times_out:
  "times_out (network env url options) timeout \<Longrightarrow>
   fetchWithTimeout env url options timeout = (Inl AbortError, [Fetch url options, Abort url])"
  by (auto simp: times_out_def fetchWithTimeout_def split: net_behaviour.splits)

text \<open>
  Claim C2. When the timeout of a call (120 seconds for the profile call, 150 seconds
  for the AI call) elapses before the network settles, the request is aborted and the
  surfaced error is exactly \<open>Request timed out. Please try again.\<close>.
\<close>

theorem timeout_message:
  assumes "trim (username st) \<noteq> []"
  shows "(times_out (network env (profile_url (username st)) profile_options) PROFILE_TIMEOUT
          \<longrightarrow> error (fst (handleAnalyze env st)) = js ''Request timed out. Please try again.''
              \<and> map snd (snd (handleAnalyze env st))
                = [Fetch (profile_url (username st)) profile_options,
                   Abort (profile_url (username st))])
       \<and> (network env (profile_url (username st)) profile_options
            = Completes t (Responded code (Parsed pd))
          \<and> t \<le> PROFILE_TIMEOUT \<and> 200 \<le> code \<and> code \<le> 299
          \<and> times_out (network env ai_url (ai_options pd)) AI_TIMEOUT
          \<longrightarrow> error (fst (handleAnalyze env st)) = js ''Request timed out. Please try again.''
              \<and> map snd (snd (handleAnalyze env st))
                = [Fetch (profile_url (username st)) profile_options,
                   Fetch ai_url (ai_options pd), Abort ai_url])
       \<and> PROFILE_TIMEOUT = 120 * 1000 \<and> AI_TIMEOUT = 150 * 1000"
proof (intro conjI impI)
  assume "times_out (network env (profile_url (username st)) profile_options) PROFILE_TIMEOUT"
  then have f: "fetchWithTimeout env (profile_url (username st)) profile_options PROFILE_TIMEOUT
      = (Inl AbortError, [Fetch (profile_url (username st)) profile_options,
                          Abort (profile_url (username st))])"
    by (rule fetchWithTimeout_times_out)
  from assms f show "error (fst (handleAnalyze env st)) = js ''Request timed out. Please try again.''"
    by (simp add: handleAnalyze_def Let_def handleFailure_error)
  from assms f show "map snd (snd (handleAnalyze env st))
                = [Fetch (profile_url (username st)) profile_options,
                   Abort (profile_url (username st))]"
    by (simp add: handleAnalyze_def Let_def)
next
  assume a: "network env (profile_url (username st)) profile_options
            = Completes t (Responded code (Parsed pd))
          \<and> t \<le> PROFILE_TIMEOUT \<and> 200 \<le> code \<and> code \<le> 299
          \<and> times_out (network env ai_url (ai_options pd)) AI_TIMEOUT"
  then have f: "fetchWithTimeout env ai_url (ai_options pd) AI_TIMEOUT
      = (Inl AbortError, [Fetch ai_url (ai_options pd), Abort ai_url])"
    by (intro fetchWithTimeout_times_out) simp
  from a have p: "network env (profile_url (username st)) profile_options
            = Completes t (Responded code (Parsed pd))"
    "t \<le> PROFILE_TIMEOUT" "200 \<le> code" "code \<le> 299" by simp_all
  from handleAnalyze_profile_ok(1) [OF assms p] f
  show "error (fst (handleAnalyze env st)) = js ''Request timed out. Please try again.''"
    by (simp add: aiStage_def Let_def handleFailure_error)
  from handleAnalyze_profile_ok(2) [OF assms p] f
  show "map snd (snd (handleAnalyze env st))
                = [Fetch (profile_url (username st)) profile_options,
                   Fetch ai_url (ai_options pd), Abort ai_url]"
    by (simp add: aiStage_def Let_def comp_def)
qed (simp_all add: PROFILE_TIMEOUT_def AI_TIMEOUT_def)

text \<open>
  A network that never answers, and one that answers the profile call and takes
  150001 milliseconds for the AI call.
\<close>

theorem timeout_message_witness:
  "times_out (network (sample_env Never Never) (profile_url (username sample_state))
       profile_options) PROFILE_TIMEOUT
   \<and> error (fst (handleAnalyze (sample_env Never Never) sample_state))
     = js ''Request timed out. Please try again.''
   \<and> times_out (network
         (sample_env (Completes 900 (Responded 200 (Parsed (JObj []))))
            (Completes 150001 (Responded 200 (Parsed (JObj [])))))
         ai_url (ai_options (JObj []))) AI_TIMEOUT
   \<and> error (fst (handleAnalyze
         (sample_env (Completes 900 (Responded 200 (Parsed (JObj []))))
            (Completes 150001 (Responded 200 (Parsed (JObj [])))))
         sample_state))
     = js ''Request timed out. Please try again.''"
proof -
  have t1: "(900::nat) \<le> PROFILE_TIMEOUT" by (simp add: PROFILE_TIMEOUT_def)
  have a: "times_out (network (sample_env Never Never) (profile_url (username sample_state))
       profile_options) PROFILE_TIMEOUT"
    by (simp add: sample_network_profile times_out_def)
  have b: "times_out (network
         (sample_env (Completes 900 (Responded 200 (Parsed (JObj []))))
            (Completes 150001 (Responded 200 (Parsed (JObj [])))))
         ai_url (ai_options (JObj []))) AI_TIMEOUT"
    by (simp add: sample_network_ai times_out_def AI_TIMEOUT_def)
  show ?thesis
    using a b t1
      timeout_message [OF sample_username, of "sample_env Never Never"]
      timeout_message [OF sample_username,
        of "sample_env (Completes 900 (Responded 200 (Parsed (JObj []))))
              (Completes 150001 (Responded 200 (Parsed (JObj []))))" 900 200 "JObj []"]
    by (simp add: sample_network_profile)
qed

section \<open>Validation and the start of a run\<close>

text \<open>
  Claim C5. For a username that is empty or consists of whitespace only, triggering the
  analysis issues no network call and sets the error to exactly
  \<open>Username cannot be empty\<close>; nothing else changes.
\<close>

theorem empty_username_rejected:
  assumes "list_all isWhiteSpace (username st)"
  shows "handleAnalyze env st = (st\<lparr>error := js ''Username cannot be empty''\<rparr>, [])"
  using assms by (simp add: handleAnalyze_def trim_empty_iff)

text \<open>A username of two spaces.\<close>

theorem empty_username_rejected_witness:
  "list_all isWhiteSpace (username (initial_state\<lparr>username := js ''  ''\<rparr>))
   \<and> handleAnalyze (sample_env Never Never) (initial_state\<lparr>username := js ''  ''\<rparr>)
     = (initial_state\<lparr>username := js ''  '', error := js ''Username cannot be empty''\<rparr>, [])"
proof -
  have w: "list_all isWhiteSpace (username (initial_state\<lparr>username := js ''  ''\<rparr>))"
    by (simp add: isWhiteSpace_def)
  from w empty_username_rejected [OF w, of "sample_env Never Never"] show ?thesis
    by simp
qed


lemma aiStage_prefix: "\<exists>new. logs (fst (aiStage env pd st)) = logs st @ new"
proof -
  let ?st = "fold (apply_update env) (aiUpdates pd) st"
  obtain n0 where base: "logs ?st = logs st @ n0"
    using aiUpdates_applied(2) by blast
  have "fst (aiStage env pd st) = finishRun env r ?st \<or> fst (aiStage env pd st) = handleFailure env e ?st
        \<Longrightarrow> \<exists>new. logs (fst (aiStage env pd st)) = logs ?st @ new" for r e
    using finishRun_prefix [of env r ?st] handleFailure_prefix [of env e ?st] by auto
  moreover have "\<exists>r e. fst (aiStage env pd st) = finishRun env r ?st
                     \<or> fst (aiStage env pd st) = handleFailure env e ?st"
    by (auto simp: aiStage_def Let_def split_def split: sum.splits)
  ultimately obtain n1 where "logs (fst (aiStage env pd st)) = logs ?st @ n1" by blast
  with base show ?thesis by simp
qed

lemma handleAnalyze_outcome:
  assumes "trim (username st) \<noteq> []"
  shows "(\<exists>e. fst (handleAnalyze env st) = handleFailure env e (startRun env st))
       \<or> (\<exists>pd. fst (handleAnalyze env st) = fst (aiStage env pd (startRun env st)))"
  using assms
  by (auto simp: handleAnalyze_def Let_def split_def split: sum.splits)

lemma handleAnalyze_prefix:
  assumes "trim (username st) \<noteq> []"
  shows "\<exists>new. logs (fst (handleAnalyze env st)) = logs (startRun env st) @ new"
  using handleAnalyze_outcome [OF assms, of env]
    handleFailure_prefix [of env _ "startRun env st"]
    aiStage_prefix [of env _ "startRun env st"]
  by metis

lemma fetchWithTimeout_first_event:
  "\<exists>rest. snd (fetchWithTimeout env url options timeout) = Fetch url options # rest"
  by (simp add: fetchWithTimeout_def split: net_behaviour.splits net_result.splits)

lemma handleAnalyze_first_event:
  assumes "trim (username st) \<noteq> []"
  shows "\<exists>rest. snd (handleAnalyze env st)
           = (\<lparr>cells = st, queued = startUpdates\<rparr>,
              Fetch (profile_url (username st)) profile_options) # rest"
proof -
  obtain rest where r: "snd (fetchWithTimeout env (profile_url (username st)) profile_options
                          PROFILE_TIMEOUT)
                     = Fetch (profile_url (username st)) profile_options # rest"
    using fetchWithTimeout_first_event by blast
  with assms show ?thesis
    by (auto simp: handleAnalyze_def Let_def split_def split: sum.splits)
qed

lemma used_state_cells:
  "username used_state = js ''octocat''"
  "githubData used_state = JObj [(js ''login'', JStr (js ''octocat''))]"
  "aiInsights used_state = JObj [(js ''resume_summary'', JStr (js ''Builds tools''))]"
  "numericInsights used_state = JObj [(js ''overall_score'', JNum 72)]"
  "map message (logs used_state)
   = [js ''Kickstarting GitHub profile analysis'',
      js ''Requesting repository intelligence from backend'',
      js ''Repository summary received'',
      js ''Sending profile summary to AI pipeline'',
      js ''AI pipeline completed successfully'']"
proof -
  have t: "(900::nat) \<le> PROFILE_TIMEOUT" by (simp add: PROFILE_TIMEOUT_def)
  have c: "(200::nat) \<le> 200" "(200::nat) \<le> 299" by simp_all
  have n: "network first_run_env (profile_url (username sample_state)) profile_options
           = Completes 900 (Responded 200 (Parsed (JObj [(js ''login'', JStr (js ''octocat''))])))"
    unfolding first_run_env_def by (rule sample_network_profile)
  have u: "used_state
           = fst (aiStage first_run_env (JObj [(js ''login'', JStr (js ''octocat''))])
                    (startRun first_run_env sample_state))"
    unfolding used_state_def by (rule handleAnalyze_profile_ok(1) [OF sample_username n t c])
  have a: "network first_run_env ai_url options
           = Completes 2000 (Responded 200 (Parsed (JObj
              [(js ''text_analysis'', JObj [(js ''resume_summary'', JStr (js ''Builds tools''))]),
               (js ''numeric_analysis'', JObj [(js ''overall_score'', JNum 72)])])))" for options
    unfolding first_run_env_def by (rule sample_network_ai)
  have f: "fst (aiStage first_run_env pd st)
           = finishRun first_run_env (JObj
              [(js ''text_analysis'', JObj [(js ''resume_summary'', JStr (js ''Builds tools''))]),
               (js ''numeric_analysis'', JObj [(js ''overall_score'', JNum 72)])])
               (fold (apply_update first_run_env) (aiUpdates pd) st)" for pd st
    by (simp add: aiStage_def fetchWithTimeout_def a AI_TIMEOUT_def ok_def response_json_def)
  show "username used_state = js ''octocat''"
    "githubData used_state = JObj [(js ''login'', JStr (js ''octocat''))]"
    "aiInsights used_state = JObj [(js ''resume_summary'', JStr (js ''Builds tools''))]"
    "numericInsights used_state = JObj [(js ''overall_score'', JNum 72)]"
    "map message (logs used_state)
     = [js ''Kickstarting GitHub profile analysis'',
        js ''Requesting repository intelligence from backend'',
        js ''Repository summary received'',
        js ''Sending profile summary to AI pipeline'',
        js ''AI pipeline completed successfully'']"
    unfolding u f
    by (simp_all add: finishRun_def aiUpdates_def or_null_def appendLog_messages
        startRun_fields sample_state_def initial_state_def)
qed

lemma used_username: "trim (username used_state) \<noteq> []"
  by (simp add: used_state_cells trim_def isWhiteSpace_def)

text \<open>
  Claim C8, as amended. In a run with a non-empty trimmed username, when the profile
  request is issued the updates that clear the error, the profile data, the AI insights,
  the numeric insights and the log list and that append the entries
  \<open>Kickstarting GitHub profile analysis\<close> and
  \<open>Requesting repository intelligence from backend\<close> have been queued, in this order,
  while the cells still hold what they held at the click. Once the queued updates are
  applied the three result cells are null and the log list holds these two entries
  only; \<open>Kickstarting GitHub profile analysis\<close> is the first entry to the end of the
  run.
\<close>

theorem run_starts_clean:
  assumes "trim (username st) \<noteq> []"
  shows "snd (handleAnalyze env st) \<noteq> []
       \<and> snd (hd (snd (handleAnalyze env st)))
         = Fetch (profile_url (username st)) profile_options
       \<and> cells (fst (hd (snd (handleAnalyze env st)))) = st
       \<and> queued (fst (hd (snd (handleAnalyze env st))))
         = [SetError [], SetLoading True, SetGithubData JNull, SetAiInsights JNull,
            SetNumericInsights JNull, SetLogs [],
            AppendLog (js ''Kickstarting GitHub profile analysis''),
            AppendLog (js ''Requesting repository intelligence from backend'')]
       \<and> githubData (flushed env (fst (hd (snd (handleAnalyze env st))))) = JNull
       \<and> aiInsights (flushed env (fst (hd (snd (handleAnalyze env st))))) = JNull
       \<and> numericInsights (flushed env (fst (hd (snd (handleAnalyze env st))))) = JNull
       \<and> map message (logs (flushed env (fst (hd (snd (handleAnalyze env st))))))
         = [js ''Kickstarting GitHub profile analysis'',
            js ''Requesting repository intelligence from backend'']
       \<and> message (hd (logs (fst (handleAnalyze env st))))
         = js ''Kickstarting GitHub profile analysis''"
proof -
  obtain rest where r: "snd (handleAnalyze env st)
           = (\<lparr>cells = st, queued = startUpdates\<rparr>,
              Fetch (profile_url (username st)) profile_options) # rest"
    using handleAnalyze_first_event [OF assms] by blast
  have f: "flushed env \<lparr>cells = st, queued = startUpdates\<rparr> = startRun env st"
    by (simp add: flushed_def startRun_def)
  obtain new where n: "logs (fst (handleAnalyze env st)) = logs (startRun env st) @ new"
    using handleAnalyze_prefix [OF assms] by blast
  have m: "map message (logs (startRun env st))
           = [js ''Kickstarting GitHub profile analysis'',
              js ''Requesting repository intelligence from backend'']"
    by (rule startRun_fields)
  then have ne: "logs (startRun env st) \<noteq> []" by auto
  then have "message (hd (logs (startRun env st))) = hd (map message (logs (startRun env st)))"
    by (simp add: hd_map)
  with m have "message (hd (logs (startRun env st))) = js ''Kickstarting GitHub profile analysis''"
    by simp
  with n ne have k: "message (hd (logs (fst (handleAnalyze env st))))
                  = js ''Kickstarting GitHub profile analysis''"
    by simp
  have q: "queued (fst (hd (snd (handleAnalyze env st))))
         = [SetError [], SetLoading True, SetGithubData JNull, SetAiInsights JNull,
            SetNumericInsights JNull, SetLogs [],
            AppendLog (js ''Kickstarting GitHub profile analysis''),
            AppendLog (js ''Requesting repository intelligence from backend'')]"
    using r by (simp add: startUpdates_def)
  from r f m k q show ?thesis by (simp add: startRun_fields)
qed

text \<open>
  A second run for \<open>octocat\<close>, from the state the first one left, on a network that
  never answers.
\<close>

theorem run_starts_clean_witness:
  "trim (username used_state) \<noteq> []
   \<and> cells (fst (hd (snd (handleAnalyze (sample_env Never Never) used_state)))) = used_state
   \<and> githubData (flushed (sample_env Never Never)
        (fst (hd (snd (handleAnalyze (sample_env Never Never) used_state))))) = JNull
   \<and> map message (logs (flushed (sample_env Never Never)
        (fst (hd (snd (handleAnalyze (sample_env Never Never) used_state))))))
     = [js ''Kickstarting GitHub profile analysis'',
        js ''Requesting repository intelligence from backend'']
   \<and> message (hd (logs (fst (handleAnalyze (sample_env Never Never) used_state))))
     = js ''Kickstarting GitHub profile analysis''"
  using used_username run_starts_clean [OF used_username, of "sample_env Never Never"]
  by simp

text \<open>
  Claim C8 as stated fails on that second run: at the profile request the cells still
  hold the profile data and the five log entries of the first run.
\<close>

theorem fetch_sees_prior_results:
  "snd (hd (snd (handleAnalyze (sample_env Never Never) used_state)))
     = Fetch (js ''http://localhost:5000/analyze?user=octocat'') profile_options
   \<and> githubData (cells (fst (hd (snd (handleAnalyze (sample_env Never Never) used_state)))))
     = JObj [(js ''login'', JStr (js ''octocat''))]
   \<and> map message
       (logs (cells (fst (hd (snd (handleAnalyze (sample_env Never Never) used_state))))))
     = [js ''Kickstarting GitHub profile analysis'',
        js ''Requesting repository intelligence from backend'',
        js ''Repository summary received'',
        js ''Sending profile summary to AI pipeline'',
        js ''AI pipeline completed successfully'']"
proof -
  obtain rest where "snd (handleAnalyze (sample_env Never Never) used_state)
           = (\<lparr>cells = used_state, queued = startUpdates\<rparr>,
              Fetch (profile_url (username used_state)) profile_options) # rest"
    using handleAnalyze_first_event [OF used_username] by blast
  then show ?thesis by (simp add: used_state_cells profile_url_def)
qed

section \<open>Failures and the log\<close>

lemma aiStage_error_logged:
  assumes "error st = []" and "error (fst (aiStage env pd st)) \<noteq> []"
  shows "logs (fst (aiStage env pd st)) \<noteq> []
       \<and> message (last (logs (fst (aiStage env pd st)))) = js ''Analysis failed''"
proof -
  let ?st = "fold (apply_update env) (aiUpdates pd) st"
  have "(\<exists>r. fst (aiStage env pd st) = finishRun env r ?st)
        \<or> (\<exists>e. fst (aiStage env pd st) = handleFailure env e ?st)"
    by (auto simp: aiStage_def Let_def split_def split: sum.splits)
  moreover have "fst (aiStage env pd st) \<noteq> finishRun env r ?st" for r
    using assms by (auto simp: aiUpdates_applied)
  ultimately obtain e where "fst (aiStage env pd st) = handleFailure env e ?st" by blast
  then show ?thesis by (simp add: handleFailure_last)
qed

text \<open>
  Claim C6, as amended. A run that has passed validation and ends in the error state
  has appended a log entry \<open>Analysis failed\<close>, which is then the last entry. The
  rejection of an empty or whitespace-only username sets the error message and leaves
  the log list as it was.
\<close>

theorem error_transition_logging:
  "(list_all isWhiteSpace (username st) \<longrightarrow>
      error (fst (handleAnalyze env st)) = js ''Username cannot be empty''
      \<and> logs (fst (handleAnalyze env st)) = logs st)
   \<and> (\<not> list_all isWhiteSpace (username st) \<and> error (fst (handleAnalyze env st)) \<noteq> [] \<longrightarrow>
        logs (fst (handleAnalyze env st)) \<noteq> []
        \<and> message (last (logs (fst (handleAnalyze env st)))) = js ''Analysis failed'')"
proof (intro conjI impI)
  assume "list_all isWhiteSpace (username st)"
  then have "handleAnalyze env st = (st\<lparr>error := js ''Username cannot be empty''\<rparr>, [])"
    by (simp add: handleAnalyze_def trim_empty_iff)
  then show "error (fst (handleAnalyze env st)) = js ''Username cannot be empty''"
    and "logs (fst (handleAnalyze env st)) = logs st"
    by simp_all
next
  assume a: "\<not> list_all isWhiteSpace (username st) \<and> error (fst (handleAnalyze env st)) \<noteq> []"
  then have u: "trim (username st) \<noteq> []" by (simp add: trim_empty_iff)
  have "logs (fst (handleAnalyze env st)) \<noteq> []
        \<and> message (last (logs (fst (handleAnalyze env st)))) = js ''Analysis failed''"
    using handleAnalyze_outcome [OF u, of env]
  proof (elim disjE exE)
    fix e assume "fst (handleAnalyze env st) = handleFailure env e (startRun env st)"
    then show ?thesis by (simp add: handleFailure_last)
  next
    fix pd assume p: "fst (handleAnalyze env st) = fst (aiStage env pd (startRun env st))"
    with a have "error (fst (aiStage env pd (startRun env st))) \<noteq> []" by simp
    with p show ?thesis
      using aiStage_error_logged [of "startRun env st" env pd] by (simp add: startRun_fields)
  qed
  then show "logs (fst (handleAnalyze env st)) \<noteq> []"
    and "message (last (logs (fst (handleAnalyze env st)))) = js ''Analysis failed''"
    by simp_all
qed

text \<open>
  The initial state, whose username is empty, and the run for \<open>octocat\<close> on a network
  that never answers.
\<close>

theorem error_transition_logging_witness:
  "list_all isWhiteSpace (username initial_state)
   \<and> logs (fst (handleAnalyze (sample_env Never Never) initial_state)) = logs initial_state
   \<and> \<not> list_all isWhiteSpace (username sample_state)
   \<and> error (fst (handleAnalyze (sample_env Never Never) sample_state)) \<noteq> []
   \<and> message (last (logs (fst (handleAnalyze (sample_env Never Never) sample_state))))
     = js ''Analysis failed''"
proof -
  have a: "list_all isWhiteSpace (username initial_state)"
    by (simp add: initial_state_def)
  have b: "\<not> list_all isWhiteSpace (username sample_state)"
    using sample_username by (simp add: trim_empty_iff)
  have c: "error (fst (handleAnalyze (sample_env Never Never) sample_state)) \<noteq> []"
    using sample_username
    by (simp add: handleAnalyze_def fetchWithTimeout_def sample_network_profile Let_def
        handleFailure_error)
  from a b c
    error_transition_logging [of initial_state "sample_env Never Never"]
    error_transition_logging [of sample_state "sample_env Never Never"]
  show ?thesis by simp
qed

text \<open>
  Claim C6 as stated fails on the first click in the initial state: the error state is
  entered and the log list stays empty.
\<close>

theorem validation_error_not_logged:
  "error (fst (handleAnalyze (sample_env Never Never) initial_state))
     = js ''Username cannot be empty''
   \<and> logs (fst (handleAnalyze (sample_env Never Never) initial_state)) = []"
  by (simp add: handleAnalyze_def initial_state_def trim_def)

end
